theory Spec2Isabelle
  imports Complex_Main "HOL-Library.Log_Nat"
begin

section \<open>Time: instants, time zones, Python datetimes\<close>

text \<open>
  The project settings module is not among the sources. The models call
  \<^verbatim>\<open>timezone.localtime\<close> on stored fields, which raises on naive values, so the
  application runs with \<^verbatim>\<open>USE_TZ = True\<close>: \<^verbatim>\<open>timezone.now()\<close> and every stored
  \<^verbatim>\<open>DateTimeField\<close> value is an aware datetime in UTC. Such a value is modelled by its
  instant: the number of microseconds since the epoch, an \<open>int\<close> (Python datetimes have
  microsecond resolution). The setting \<^verbatim>\<open>TIME_ZONE\<close> is a parameter: a function that gives
  the UTC offset, in microseconds, in force at an instant.
\<close>

type_synonym instant = int
type_synonym tzinfo = "instant \<Rightarrow> int"

definition us_per_second :: int where "us_per_second = 1000000"
definition us_per_minute :: int where "us_per_minute = 60 * 1000000"
definition us_per_hour :: int where "us_per_hour = 3600 * 1000000"
definition us_per_day :: int where "us_per_day = 86400 * 1000000"

text \<open>
  A \<^verbatim>\<open>datetime.datetime\<close> object is naive (wall-clock fields only, here the microseconds
  since the epoch's midnight on that wall clock) or aware (an instant and the UTC offset
  of its \<^verbatim>\<open>tzinfo\<close>; its wall-clock fields are those of instant plus offset). A
  \<^verbatim>\<open>datetime.date\<close> is the day number, a naive \<^verbatim>\<open>datetime.time\<close> the microseconds since
  midnight, a \<^verbatim>\<open>datetime.timedelta\<close> a number of microseconds.
\<close>

datatype datetime = Naive int | Aware instant int

datatype exn = DoesNotExist | MultipleObjectsReturned | TypeError

fun wall_clock :: "datetime \<Rightarrow> int" where
  "wall_clock (Naive w) = w"
| "wall_clock (Aware t off) = t + off"

text \<open>\<^verbatim>\<open>dt.date()\<close> and \<^verbatim>\<open>dt.time()\<close>: the wall-clock day and time of day (tzinfo dropped).\<close>

definition dt_date :: "datetime \<Rightarrow> int" where
  "dt_date d = wall_clock d div us_per_day"

definition dt_time :: "datetime \<Rightarrow> int" where
  "dt_time d = wall_clock d mod us_per_day"

text \<open>\<^verbatim>\<open>datetime.time(h, m)\<close>, \<^verbatim>\<open>datetime.timedelta(minutes=m)\<close>.\<close>

definition datetime_time :: "int \<Rightarrow> int \<Rightarrow> int" where
  "datetime_time h m = h * us_per_hour + m * us_per_minute"

definition timedelta_minutes :: "int \<Rightarrow> int" where
  "timedelta_minutes m = m * us_per_minute"

text \<open>
  \<^verbatim>\<open>datetime.datetime.combine(date, time)\<close> with a naive time gives a naive datetime;
  adding a timedelta keeps the awareness of the datetime.
\<close>

definition combine :: "int \<Rightarrow> int \<Rightarrow> datetime" where
  "combine d t = Naive (d * us_per_day + t)"

fun dt_add :: "datetime \<Rightarrow> int \<Rightarrow> datetime" where
  "dt_add (Naive w) delta = Naive (w + delta)"
| "dt_add (Aware t off) delta = Aware (t + delta) off"

text \<open>
  \<^verbatim>\<open>a > b\<close> on datetimes: two naive values compare their wall clocks, two aware values
  their instants; Python raises \<^verbatim>\<open>TypeError\<close> (can't compare offset-naive and
  offset-aware datetimes) on a mixed pair.
\<close>

fun dt_gt :: "datetime \<Rightarrow> datetime \<Rightarrow> exn + bool" where
  "dt_gt (Naive a) (Naive b) = Inr (b < a)"
| "dt_gt (Aware a _) (Aware b _) = Inr (b < a)"
| "dt_gt _ _ = Inl TypeError"

text \<open>
  \<^verbatim>\<open>timezone.localtime(value)\<close>: the aware value converted to the current time zone
  (\<^verbatim>\<open>value.astimezone(tz)\<close>). No view activates another zone, so the current zone is
  the one of the settings.
\<close>

definition localtime :: "tzinfo \<Rightarrow> instant \<Rightarrow> datetime" where
  "localtime tz t = Aware t (tz t)"

text \<open>An aware datetime in UTC, as \<^verbatim>\<open>timezone.now()\<close> returns it.\<close>

definition utc :: "instant \<Rightarrow> datetime" where
  "utc t = Aware t 0"

section \<open>Python floats\<close>

text \<open>
  \<^verbatim>\<open>hours_worked\<close> is a Python float. A finite float is modelled by the rational number
  it denotes. \<open>binary64 q\<close> is the IEEE 754 double nearest to \<open>q\<close>, ties to even, with
  53 significant bits and gradual underflow below \<open>2^-1022\<close>. Overflow is left out: the
  operands here are differences of datetimes, which Python bounds to the years 1 to 9999,
  far below the largest double.
\<close>

definition round_half_even :: "rat \<Rightarrow> int" where
  "round_half_even q =
     (let f = \<lfloor>q\<rfloor>; r = q - of_int f in
      if r < 1 / 2 then f
      else if 1 / 2 < r then f + 1
      else if even f then f else f + 1)"

text \<open>\<open>ilog2 q\<close> is \<open>\<lfloor>log\<^sub>2 q\<rfloor>\<close> for a positive rational \<open>q\<close>.\<close>

definition ilog2 :: "rat \<Rightarrow> int" where
  "ilog2 q =
     (let (a, b) = quotient_of q; d = bitlen a - bitlen b in
      if a * 2 ^ nat (bitlen b) < b * 2 ^ nat (bitlen a) then d - 1 else d)"

definition pow2 :: "int \<Rightarrow> rat" where
  "pow2 p = (if 0 \<le> p then 2 ^ nat p else 1 / 2 ^ nat (- p))"

definition binary64 :: "rat \<Rightarrow> rat" where
  "binary64 q =
     (if q = 0 then 0
      else let p = max (ilog2 \<bar>q\<bar> - 52) (- 1074)
           in of_int (round_half_even (q / pow2 p)) * pow2 p)"

text \<open>
  \<^verbatim>\<open>timedelta.total_seconds()\<close> is the true division of the microseconds by \<open>10^6\<close>, an
  integer division rounded correctly to a float; \<^verbatim>\<open>x / 3600\<close> is a float division;
  \<^verbatim>\<open>round(x, 2)\<close> on a float rounds the exact value of \<open>x\<close> to two decimals, ties to
  even, and converts that decimal back to the nearest float.
\<close>

definition total_seconds :: "int \<Rightarrow> rat" where
  "total_seconds delta = binary64 (of_int delta / of_int us_per_second)"

definition float_div :: "rat \<Rightarrow> rat \<Rightarrow> rat" where
  "float_div x y = binary64 (x / y)"

definition py_round2 :: "rat \<Rightarrow> rat" where
  "py_round2 x = binary64 (of_int (round_half_even (x * 100)) / 100)"

section \<open>The data model\<close>

text \<open>
  \<^verbatim>\<open>CustomUser\<close>: the fields the operations read. \<open>uid\<close> is the primary key, \<open>password\<close>
  the encoded password of \<^verbatim>\<open>AbstractUser\<close>. Nullable character fields are options.
\<close>

record custom_user =
  uid :: nat
  employee_id :: string
  first_name :: "string option"
  surname :: "string option"
  company :: "string option"
  pin :: "string option"
  password :: string
  is_staff :: bool
  is_superuser :: bool

text \<open>
  \<^verbatim>\<open>TimeEntry\<close>. \<open>pk\<close> is the primary key, \<open>user_id\<close> the foreign key. \<open>time_in\<close> is
  a non-null column, set on creation.
\<close>

record time_entry =
  pk :: nat
  user_id :: nat
  time_in :: instant
  time_out :: "instant option"
  hours_worked :: "rat option"
  is_late :: bool

text \<open>
  The state: both tables, rows in storage order, and the number of times the server
  clock has been read. The clock is a parameter: \<open>clk n\<close> is the instant that the
  \<open>n\<close>-th call of \<^verbatim>\<open>timezone.now()\<close> returns.
\<close>

type_synonym clock = "nat \<Rightarrow> instant"

record state =
  users :: "custom_user list"
  entries :: "time_entry list"
  ticks :: nat

definition timezone_now :: "clock \<Rightarrow> state \<Rightarrow> instant \<times> state" where
  "timezone_now clk s = (clk (ticks s), s\<lparr>ticks := Suc (ticks s)\<rparr>)"

section \<open>The time entry table\<close>

text \<open>
  \<^verbatim>\<open>Model.save()\<close> of an instance that has a primary key: the row with that key is
  updated, and the instance is inserted when no row has it.
\<close>

definition save :: "time_entry \<Rightarrow> state \<Rightarrow> state" where
  "save e s =
     (if pk e \<in> set (map pk (entries s))
      then s\<lparr>entries := map (\<lambda>r. if pk r = pk e then e else r) (entries s)\<rparr>
      else s\<lparr>entries := entries s @ [e]\<rparr>)"

text \<open>The key of an inserted row: greater than every key of the table.\<close>

definition new_pk :: "time_entry list \<Rightarrow> nat" where
  "new_pk rows = Suc (foldr max (map pk rows) 0)"

text \<open>
  \<^verbatim>\<open>TimeEntry.objects.create(user=user)\<close>: \<open>auto_now_add\<close> sets \<open>time_in\<close> to
  \<^verbatim>\<open>timezone.now()\<close>, the other fields take their defaults, the row is inserted.
\<close>

definition objects_create :: "clock \<Rightarrow> custom_user \<Rightarrow> state \<Rightarrow> time_entry \<times> state" where
  "objects_create clk user s =
     (let (now, s1) = timezone_now clk s;
          e = \<lparr>pk = new_pk (entries s1), user_id = uid user, time_in = now,
               time_out = None, hours_worked = None, is_late = False\<rparr>
      in (e, s1\<lparr>entries := entries s1 @ [e]\<rparr>))"

section \<open>TimeEntry.clock\_out\<close>

text \<open>
  The two guards of the source, \<^verbatim>\<open>if self.time_in and self.time_out\<close> and
  \<^verbatim>\<open>if self.time_in\<close>, hold for every row: \<open>time_in\<close> is never null, \<open>time_out\<close> has
  just been set, and a datetime object is always true.
\<close>

definition clock_out :: "clock \<Rightarrow> tzinfo \<Rightarrow> time_entry \<Rightarrow> state \<Rightarrow> time_entry \<times> state" where
  "clock_out clk tz self s =
     (let (now, s1) = timezone_now clk s;
          delta = now - time_in self;
          e1 = self\<lparr>time_out := Some now,
                    hours_worked := Some (py_round2 (float_div (total_seconds delta) 3600))\<rparr>;
          time_in_local = localtime tz (time_in self);
          expected_start = datetime_time 9 0;
          e2 = e1\<lparr>is_late := expected_start < dt_time time_in_local\<rparr>
      in (e2, save e2 s1))"

section \<open>TimeEntry.clock\_in\<close>

text \<open>
  The loop \<^verbatim>\<open>for entry in open_entries: entry.clock_out()\<close>. The query is evaluated
  once, when the loop starts; each instance of its result is then clocked out and saved.
\<close>

fun clock_out_each :: "clock \<Rightarrow> tzinfo \<Rightarrow> time_entry list \<Rightarrow> state \<Rightarrow> state" where
  "clock_out_each clk tz [] s = s"
| "clock_out_each clk tz (entry # rest) s =
     clock_out_each clk tz rest (snd (clock_out clk tz entry s))"

text \<open>
  \<^verbatim>\<open>filter(user=user, time_out__isnull=True)\<close>, and \<^verbatim>\<open>filter(user=user,
  time_in__date=d)\<close>: with \<^verbatim>\<open>USE_TZ\<close> the \<^verbatim>\<open>__date\<close> lookup converts the column to
  the current time zone before it takes the date.
\<close>

definition open_entries_of :: "custom_user \<Rightarrow> time_entry list \<Rightarrow> time_entry list" where
  "open_entries_of user rows = filter (\<lambda>e. user_id e = uid user \<and> time_out e = None) rows"

definition entries_on_date :: "tzinfo \<Rightarrow> custom_user \<Rightarrow> int \<Rightarrow> time_entry list \<Rightarrow> time_entry list" where
  "entries_on_date tz user d rows =
     filter (\<lambda>e. user_id e = uid user \<and> dt_date (localtime tz (time_in e)) = d) rows"

text \<open>
  The result pairs the returned entry, or the exception that leaves the method, with
  the state: statements run in autocommit mode, so what was written before an exception
  stays written.
\<close>

definition clock_in :: "clock \<Rightarrow> tzinfo \<Rightarrow> custom_user \<Rightarrow> state \<Rightarrow> (exn + time_entry) \<times> state" where
  "clock_in clk tz user s =
     (let open_entries = open_entries_of user (entries s);
          s1 = clock_out_each clk tz open_entries s;
          (new_entry, s2) = objects_create clk user s1;
          (now, s3) = timezone_now clk s2
      in if entries_on_date tz user (dt_date (utc now)) (entries s3) = [] then
           (let time_in_local = localtime tz (time_in new_entry);
                expected_start = datetime_time 8 0;
                grace_period = timedelta_minutes 5;
                expected_start_with_grace =
                  dt_add (combine (dt_date time_in_local) expected_start) grace_period
            in case dt_gt time_in_local expected_start_with_grace of
                 Inl err \<Rightarrow> (Inl err, s3)
               | Inr late \<Rightarrow>
                   (let e = new_entry\<lparr>is_late := late\<rparr> in (Inr e, save e s3)))
         else (Inr new_entry, s3))"

section \<open>CustomUser.authenticate\_by\_pin\<close>

text \<open>
  \<^verbatim>\<open>objects.get(employee_id=...)\<close>: the one matching row, \<^verbatim>\<open>DoesNotExist\<close> when there
  is none, \<^verbatim>\<open>MultipleObjectsReturned\<close> when there are several (the column is declared
  unique, so a database never holds several). The submitted value is a string or
  \<^verbatim>\<open>None\<close>.
\<close>

definition objects_get :: "custom_user list \<Rightarrow> string option \<Rightarrow> exn + custom_user" where
  "objects_get rows eid =
     (case filter (\<lambda>u. Some (employee_id u) = eid) rows of
        [] \<Rightarrow> Inl DoesNotExist
      | [u] \<Rightarrow> Inr u
      | _ \<Rightarrow> Inl MultipleObjectsReturned)"

text \<open>
  \<^verbatim>\<open>user.check_password(raw)\<close>: false for \<^verbatim>\<open>None\<close>, else the verdict of the password
  hasher on the raw and the encoded password. The hasher belongs to the framework and is
  a parameter.
\<close>

type_synonym hasher = "string \<Rightarrow> string \<Rightarrow> bool"

definition check_password :: "hasher \<Rightarrow> custom_user \<Rightarrow> string option \<Rightarrow> bool" where
  "check_password verify user raw =
     (case raw of None \<Rightarrow> False | Some p \<Rightarrow> verify p (password user))"

text \<open>
  The method returns the user or \<^verbatim>\<open>None\<close>. A staff user whose password does not
  verify falls off the end of the method, which returns \<^verbatim>\<open>None\<close> as well.
\<close>

definition authenticate_by_pin ::
  "hasher \<Rightarrow> state \<Rightarrow> string option \<Rightarrow> string option \<Rightarrow> exn + custom_user option" where
  "authenticate_by_pin verify s eid secret =
     (case objects_get (users s) eid of
        Inl DoesNotExist \<Rightarrow> Inr None
      | Inl err \<Rightarrow> Inl err
      | Inr user \<Rightarrow>
          if is_staff user \<or> is_superuser user then
            (if check_password verify user secret then Inr (Some user) else Inr None)
          else if pin user = secret then Inr (Some user)
          else Inr None)"

section \<open>The views\<close>

text \<open>
  \<^verbatim>\<open>login_view\<close>. The responses are the template with its error, or a redirect. The
  session that \<^verbatim>\<open>login(request, user)\<close> opens is not part of the state here.
\<close>

datatype page = Render "string option" | RedirectAdmin | RedirectUserPage

definition login_view :: "state \<Rightarrow> string \<Rightarrow> string option \<Rightarrow> string option \<Rightarrow> exn + page" where
  "login_view s method eid secret =
     (if method = ''POST'' then
        (case objects_get (users s) eid of
           Inl DoesNotExist \<Rightarrow> Inr (Render (Some ''Employee ID not found''))
         | Inl err \<Rightarrow> Inl err
         | Inr user \<Rightarrow>
             if pin user \<noteq> secret then Inr (Render (Some ''Incorrect PIN''))
             else if is_staff user \<or> is_superuser user then Inr RedirectAdmin
             else Inr RedirectUserPage)
      else Inr (Render None))"

text \<open>
  The JSON views, for a POST request whose body is a JSON object; \<open>eid\<close> and \<open>secret\<close>
  are its members \<^verbatim>\<open>employee_id\<close> and \<^verbatim>\<open>pin\<close>, \<^verbatim>\<open>None\<close> when absent. The payload
  carries the local datetimes that the view then formats with \<^verbatim>\<open>strftime\<close>. An
  exception that no handler catches leaves the view (\<open>Inl\<close>).
\<close>

record payload =
  p_employee_id :: string
  p_first_name :: "string option"
  p_surname :: "string option"
  p_company :: "string option"
  p_time_in :: datetime
  p_time_out :: "datetime option"

datatype json_response = Failure string | Success payload

definition clock_in_view ::
  "clock \<Rightarrow> tzinfo \<Rightarrow> state \<Rightarrow> string option \<Rightarrow> string option \<Rightarrow> (exn + json_response) \<times> state" where
  "clock_in_view clk tz s eid secret =
     (case objects_get (users s) eid of
        Inl DoesNotExist \<Rightarrow> (Inr (Failure ''Employee ID not found''), s)
      | Inl err \<Rightarrow> (Inl err, s)
      | Inr user \<Rightarrow>
          if pin user \<noteq> secret then (Inr (Failure ''Incorrect PIN''), s)
          else
            (case clock_in clk tz user s of
               (Inl err, s') \<Rightarrow> (Inl err, s')
             | (Inr entry, s') \<Rightarrow>
                 (Inr (Success \<lparr>p_employee_id = employee_id user, p_first_name = first_name user,
                                 p_surname = surname user, p_company = company user,
                                 p_time_in = localtime tz (time_in entry), p_time_out = None\<rparr>),
                  s')))"

text \<open>
  \<^verbatim>\<open>.latest('time_in')\<close>: the row with the greatest \<open>time_in\<close>, \<^verbatim>\<open>DoesNotExist\<close> on an
  empty result. Among rows with the same \<open>time_in\<close> the database is free to choose; the
  model takes the first in storage order.
\<close>

fun latest :: "time_entry list \<Rightarrow> exn + time_entry" where
  "latest [] = Inl DoesNotExist"
| "latest (e # es) = Inr (foldl (\<lambda>best r. if time_in best < time_in r then r else best) e es)"

definition clock_out_view ::
  "clock \<Rightarrow> tzinfo \<Rightarrow> state \<Rightarrow> string option \<Rightarrow> string option \<Rightarrow> (exn + json_response) \<times> state" where
  "clock_out_view clk tz s eid secret =
     (case objects_get (users s) eid of
        Inl DoesNotExist \<Rightarrow> (Inr (Failure ''Employee ID not found''), s)
      | Inl err \<Rightarrow> (Inl err, s)
      | Inr user \<Rightarrow>
          if pin user \<noteq> secret then (Inr (Failure ''Incorrect PIN''), s)
          else
            (case latest (open_entries_of user (entries s)) of
               Inl DoesNotExist \<Rightarrow> (Inr (Failure ''No active clock in found.''), s)
             | Inl err \<Rightarrow> (Inl err, s)
             | Inr open_entry \<Rightarrow>
                 (let (e, s') = clock_out clk tz open_entry s
                  in (Inr (Success \<lparr>p_employee_id = employee_id user,
                                     p_first_name = first_name user,
                                     p_surname = surname user, p_company = company user,
                                     p_time_in = localtime tz (time_in e),
                                     p_time_out = map_option (localtime tz) (time_out e)\<rparr>),
                      s'))))"

section \<open>A property of rows\<close>

text \<open>
  A row is fully populated when it is open, or it is closed with its hours set, and the
  hours are not negative unless the clock went backwards between its two instants.
\<close>

definition fully_populated :: "time_entry \<Rightarrow> bool" where
  "fully_populated r =
     (case time_out r of
        None \<Rightarrow> True
      | Some t \<Rightarrow> (case hours_worked r of None \<Rightarrow> False | Some h \<Rightarrow> time_in r \<le> t \<longrightarrow> 0 \<le> h))"

section \<open>Example data\<close>

text \<open>
  A directory with a regular user and a staff user, a toy password hasher, and a few
  ledgers and clocks. Instants are on the first day of the epoch.
\<close>

definition utc_zone :: tzinfo where
  "utc_zone t = 0"

definition alice :: custom_user where
  "alice = \<lparr>uid = 1, employee_id = ''E00001'', first_name = Some ''Alice'', surname = Some ''Cruz'',
            company = Some ''Acme'', pin = Some ''1234'', password = ''plain$unused'',
            is_staff = False, is_superuser = False\<rparr>"

definition boss :: custom_user where
  "boss = \<lparr>uid = 2, employee_id = ''E00002'', first_name = Some ''Bob'', surname = None,
           company = None, pin = Some ''0000'', password = ''plain$hunter2'',
           is_staff = True, is_superuser = False\<rparr>"

definition demo_verify :: hasher where
  "demo_verify raw encoded = (encoded = ''plain$'' @ raw)"

definition empty_ledger :: state where
  "empty_ledger = \<lparr>users = [alice, boss], entries = [], ticks = 0\<rparr>"

definition entry_0830 :: time_entry where
  "entry_0830 = \<lparr>pk = 1, user_id = 1, time_in = (8 * 3600 + 30 * 60) * 1000000,
                  time_out = None, hours_worked = None, is_late = False\<rparr>"

definition ledger_0830 :: state where
  "ledger_0830 = \<lparr>users = [alice, boss], entries = [entry_0830], ticks = 0\<rparr>"

definition entry_closed :: time_entry where
  "entry_closed = \<lparr>pk = 1, user_id = 1, time_in = (8 * 3600 + 30 * 60) * 1000000,
                    time_out = Some (12 * 3600 * 1000000), hours_worked = Some (7 / 2),
                    is_late = False\<rparr>"

definition ledger_closed :: state where
  "ledger_closed = \<lparr>users = [alice, boss], entries = [entry_closed], ticks = 1\<rparr>"

definition clock_1700 :: clock where
  "clock_1700 n = 17 * 3600 * 1000000"

definition clock_1707 :: clock where
  "clock_1707 n = (17 * 3600 + 7 * 60) * 1000000"

definition clock_0806 :: clock where
  "clock_0806 n = (8 * 3600 + 6 * 60) * 1000000"

definition midnight_clock :: clock where
  "midnight_clock n = (if n = 0 then 86400 * 1000000 - 1 else 86400 * 1000000)"

section \<open>Basic facts about save and clock\_out\<close>

lemma saved_in_table: "e \<in> set (entries (save e s))"
  by (auto simp: save_def)

lemma save_rows:
  "r \<in> set (entries (save e s)) \<Longrightarrow> r = e \<or> (r \<in> set (entries s) \<and> pk r \<noteq> pk e)"
proof (cases "pk e \<in> set (map pk (entries s))")
  case True
  assume "r \<in> set (entries (save e s))"
  with True show ?thesis by (auto simp: save_def)
next
  case False
  assume "r \<in> set (entries (save e s))"
  with False show ?thesis by (auto simp: save_def image_iff)
qed

lemma saved_row_unique_by_pk: "r \<in> set (entries (save e s)) \<Longrightarrow> pk r = pk e \<Longrightarrow> r = e"
  using save_rows by blast

lemma save_ticks: "ticks (save e s) = ticks s"
  by (simp add: save_def)

lemma save_users: "users (save e s) = users s"
  by (simp add: save_def)

lemma save_pks: "pk ` set (entries s) \<subseteq> pk ` set (entries (save e s))"
proof (cases "pk e \<in> set (map pk (entries s))")
  case True
  then have "map pk (entries (save e s)) = map pk (entries s)"
    by (simp add: save_def o_def cong: map_cong)
  then have "set (map pk (entries (save e s))) = set (map pk (entries s))" by simp
  then show ?thesis by simp
next
  case False
  then show ?thesis by (auto simp: save_def)
qed

lemma clock_out_fst:
  "fst (clock_out clk tz e s) =
     e\<lparr>time_out := Some (clk (ticks s)),
       hours_worked := Some (py_round2 (float_div (total_seconds (clk (ticks s) - time_in e)) 3600)),
       is_late := datetime_time 9 0 < dt_time (localtime tz (time_in e))\<rparr>"
  by (simp add: clock_out_def timezone_now_def Let_def)

lemma clock_out_snd:
  "snd (clock_out clk tz e s) = save (fst (clock_out clk tz e s)) (s\<lparr>ticks := Suc (ticks s)\<rparr>)"
  by (simp add: clock_out_def timezone_now_def Let_def)

lemma clock_out_pk: "pk (fst (clock_out clk tz e s)) = pk e"
  by (simp add: clock_out_fst)

lemma clock_out_user_id: "user_id (fst (clock_out clk tz e s)) = user_id e"
  by (simp add: clock_out_fst)

lemma clock_out_time_out: "time_out (fst (clock_out clk tz e s)) = Some (clk (ticks s))"
  by (simp add: clock_out_fst)

lemma clock_out_ticks: "ticks (snd (clock_out clk tz e s)) = Suc (ticks s)"
  by (simp add: clock_out_snd save_ticks)

lemma clock_out_users: "users (snd (clock_out clk tz e s)) = users s"
  by (simp add: clock_out_snd save_users)

lemma clock_out_fst_ticks:
  "ticks s = ticks s' \<Longrightarrow> fst (clock_out clk tz e s) = fst (clock_out clk tz e s')"
  by (simp add: clock_out_fst)

lemma clock_out_rows:
  "r \<in> set (entries (snd (clock_out clk tz e s))) \<Longrightarrow>
   r = fst (clock_out clk tz e s) \<or> (r \<in> set (entries s) \<and> pk r \<noteq> pk e)"
proof -
  assume "r \<in> set (entries (snd (clock_out clk tz e s)))"
  then have "r \<in> set (entries (save (fst (clock_out clk tz e s)) (s\<lparr>ticks := Suc (ticks s)\<rparr>)))"
    by (simp only: clock_out_snd [symmetric])
  from save_rows [OF this] show ?thesis by (simp add: clock_out_pk)
qed

lemma clock_out_keeps:
  "r \<in> set (entries s) \<Longrightarrow> pk r \<noteq> pk e \<Longrightarrow> r \<in> set (entries (snd (clock_out clk tz e s)))"
  by (auto simp: clock_out_snd save_def clock_out_pk)

lemma local_time_of_day:
  "dt_time (localtime tz t) = (t + tz t) mod (86400 * 1000000)"
  by (simp add: dt_time_def localtime_def us_per_day_def)

lemma local_date:
  "dt_date (localtime tz t) = (t + tz t) div (86400 * 1000000)"
  by (simp add: dt_date_def localtime_def us_per_day_def)

lemma utc_date: "dt_date (utc t) = t div (86400 * 1000000)"
  by (simp add: dt_date_def utc_def us_per_day_def)

lemma nine_oclock: "datetime_time 9 0 = 9 * 3600 * 1000000"
  by (simp add: datetime_time_def us_per_hour_def)

section \<open>Facts about the float operations\<close>

text \<open>
  \<open>ilog2\<close> is the binary exponent, and \<open>binary64 q\<close> is within half a unit in the last
  place of \<open>q\<close>; the rounding of a tie is to the even significand by definition.
\<close>

lemma pow2_powi: "pow2 p = 2 powi p"
  by (simp add: pow2_def power_int_def field_simps)

lemma pow2_pos: "0 < pow2 p"
  by (simp add: pow2_def)

lemma bitlen_rat_bounds:
  "0 < x \<Longrightarrow> (2::rat) powi (bitlen x - 1) \<le> of_int x \<and> of_int x < (2::rat) powi (bitlen x)"
proof -
  assume x: "0 < x"
  then have b: "2 ^ nat (bitlen x - 1) \<le> x \<and> x < 2 ^ nat (bitlen x)"
    by (rule bitlen_bounds)
  from x have p: "1 \<le> bitlen x" by (simp add: bitlen_alt_def)
  from b have "(of_int (2 ^ nat (bitlen x - 1)) :: rat) \<le> of_int x" 
    by (simp only: of_int_le_iff)
  moreover from b have "(of_int x :: rat) < of_int (2 ^ nat (bitlen x))"
    by (simp only: of_int_less_iff)
  ultimately show ?thesis using p by (simp add: power_int_def)
qed

lemma ilog2_bounds:
  "0 < q \<Longrightarrow> pow2 (ilog2 q) \<le> q \<and> q < pow2 (ilog2 q + 1)"
proof -
  assume q: "0 < q"
  obtain a b where ab: "quotient_of q = (a, b)" by (cases "quotient_of q")
  then have b: "0 < b" by (rule quotient_of_denom_pos)
  from ab have qe: "q = of_int a / of_int b" by (rule quotient_of_div)
  with q b have a: "0 < a" by (simp add: zero_less_divide_iff)
  let ?la = "bitlen a" and ?lb = "bitlen b"
  from bitlen_rat_bounds [OF a] have ba: "(2::rat) powi (?la - 1) \<le> of_int a" "of_int a < (2::rat) powi ?la"
    by simp_all
  from bitlen_rat_bounds [OF b] have bb: "(2::rat) powi (?lb - 1) \<le> of_int b" "of_int b < (2::rat) powi ?lb"
    by simp_all
  have bpos: "(0::rat) < of_int b" using b by simp
  have lo: "(2::rat) powi (?la - ?lb - 1) \<le> q"
  proof -
    have "(2::rat) powi (?la - ?lb - 1) = 2 powi (?la - 1) / 2 powi ?lb"
      by (simp add: power_int_diff)
    also have "\<dots> \<le> of_int a / 2 powi ?lb"
      using ba(1) by (simp add: divide_right_mono)
    also have "\<dots> \<le> of_int a / of_int b"
      using bb(2) a bpos by (simp add: frac_le)
    finally show ?thesis by (simp add: qe)
  qed
  have hi: "q < (2::rat) powi (?la - ?lb + 1)"
  proof -
    have "(of_int a :: rat) / of_int b < 2 powi ?la / of_int b"
      using ba(2) bpos by (simp add: divide_strict_right_mono)
    also have "\<dots> \<le> 2 powi ?la / 2 powi (?lb - 1)"
      using bb(1) by (simp add: frac_le)
    also have "\<dots> = 2 powi (?la - ?lb + 1)"
      by (simp add: power_int_diff power_int_add)
    finally show ?thesis by (simp add: qe)
  qed
  have cmp: "(a * 2 ^ nat ?lb < b * 2 ^ nat ?la) = (q < (2::rat) powi (?la - ?lb))"
  proof -
    have "(a * 2 ^ nat ?lb < b * 2 ^ nat ?la)
        = ((of_int (a * 2 ^ nat ?lb) :: rat) < of_int (b * 2 ^ nat ?la))"
      by (simp only: of_int_less_iff)
    also have "\<dots> = ((of_int a :: rat) * 2 powi ?lb < of_int b * 2 powi ?la)"
      by (simp add: power_int_def bitlen_nonneg)
    also have "\<dots> = (of_int a / of_int b < (2::rat) powi ?la / 2 powi ?lb)"
      using bpos by (simp add: field_simps)
    also have "\<dots> = (q < (2::rat) powi (?la - ?lb))"
      by (simp add: qe power_int_diff)
    finally show ?thesis .
  qed
  show ?thesis
  proof (cases "a * 2 ^ nat ?lb < b * 2 ^ nat ?la")
    case True
    then have "ilog2 q = ?la - ?lb - 1" by (simp add: ilog2_def ab)
    with lo True cmp show ?thesis by (simp add: pow2_powi)
  next
    case False
    then have "ilog2 q = ?la - ?lb" by (simp add: ilog2_def ab)
    with hi False cmp show ?thesis by (simp add: pow2_powi)
  qed
qed

lemma round_half_even_error: "\<bar>of_int (round_half_even x) - x\<bar> \<le> 1 / 2"
proof -
  have "of_int \<lfloor>x\<rfloor> \<le> x" "x < of_int \<lfloor>x\<rfloor> + 1" by linarith+
  then show ?thesis
    by (auto simp: round_half_even_def Let_def abs_le_iff)
qed

lemma binary64_error:
  "q \<noteq> 0 \<Longrightarrow> \<bar>binary64 q - q\<bar> \<le> pow2 (max (ilog2 \<bar>q\<bar> - 52) (- 1074)) / 2"
proof -
  assume q: "q \<noteq> 0"
  let ?p = "max (ilog2 \<bar>q\<bar> - 52) (- 1074)"
  have pos: "0 < pow2 ?p" by (simp add: pow2_def)
  have "binary64 q - q = (of_int (round_half_even (q / pow2 ?p)) - q / pow2 ?p) * pow2 ?p"
    using q pos by (simp add: binary64_def Let_def field_simps)
  then have "\<bar>binary64 q - q\<bar> = \<bar>of_int (round_half_even (q / pow2 ?p)) - q / pow2 ?p\<bar> * pow2 ?p"
    using pos by (simp add: abs_mult)
  also have "\<dots> \<le> 1 / 2 * pow2 ?p"
    using round_half_even_error [of "q / pow2 ?p"] pos by (simp only: mult_right_mono less_imp_le)
  finally show ?thesis by simp
qed

text \<open>
  The relative form of the bound, and the hours of a difference \<open>d\<close> of microseconds: they
  are the double of a number \<open>k / 100\<close> of two decimals, which is within half a hundredth
  of the exact quotient \<open>d / 3600000000\<close>, up to the rounding of the two float
  divisions.
\<close>

lemma binary64_rel_error: "\<bar>binary64 q - q\<bar> \<le> \<bar>q\<bar> / 2 ^ 53 + 1 / 2 ^ 60"
proof (cases "q = 0")
  case True
  then show ?thesis by (simp add: binary64_def)
next
  case False
  then have q: "0 < \<bar>q\<bar>" by simp
  let ?e = "ilog2 \<bar>q\<bar>"
  let ?p = "max (?e - 52) (- 1074)"
  from binary64_error [OF False] have b: "\<bar>binary64 q - q\<bar> \<le> pow2 ?p / 2" .
  show ?thesis
  proof (cases "- 1074 \<le> ?e - 52")
    case True
    then have "?p = ?e - 52" by simp
    moreover have "(2::rat) powi (?e - 52) = 2 powi ?e / 2 powi 52"
      by (rule power_int_diff) simp
    moreover have "(2::rat) powi 52 = 2 ^ 52"
      by (simp add: power_int_def)
    ultimately have "pow2 ?p = pow2 ?e / 2 ^ 52"
      by (simp only: pow2_powi)
    moreover from ilog2_bounds [OF q] have "pow2 ?e \<le> \<bar>q\<bar>" by simp
    ultimately have "pow2 ?p / 2 \<le> \<bar>q\<bar> / 2 ^ 53" by simp
    with b show ?thesis by simp
  next
    case False
    then have "?p = - 1074" by simp
    then have "pow2 ?p = 1 / 2 ^ 1074" by (simp only: pow2_def) simp
    then have "pow2 ?p / 2 = 1 / 2 ^ 1075" by simp
    also have "\<dots> \<le> (1::rat) / 2 ^ 60"
      by (rule divide_left_mono) (simp_all add: power_increasing)
    finally have "pow2 ?p / 2 \<le> 1 / 2 ^ 60" .
    with b have "\<bar>binary64 q - q\<bar> \<le> 1 / 2 ^ 60" by simp
    moreover have "0 \<le> \<bar>q\<bar> / 2 ^ 53" by simp
    ultimately show ?thesis by linarith
  qed
qed

lemma hours_error_budget:
  fixes a b1 b2 b3 c g :: rat
  assumes "0 \<le> a" "b1 \<le> a / 2 ^ 53 + 1 / (3600 * 2 ^ 60)"
    "b2 \<le> c / 2 ^ 53 + 1 / 2 ^ 60" "b3 \<le> 1 / 200" "c \<le> a + b1" "g \<le> b3 + b2 + b1"
  shows "g \<le> 1 / 200 + (a + 1) / 2 ^ 50"
proof -
  have "c / 2 ^ 53 \<le> (a + b1) / 2 ^ 53"
    using assms(5) by (rule divide_right_mono) simp
  with assms(3) have b2: "b2 \<le> a / 2 ^ 53 + b1 / 2 ^ 53 + 1 / 2 ^ 60"
    by (simp add: add_divide_distrib)
  have "b1 \<le> a + 1"
  proof -
    have "a / 2 ^ 53 \<le> a" using assms(1) by (simp add: field_simps)
    moreover have "(1::rat) / (3600 * 2 ^ 60) \<le> 1" by simp
    ultimately show ?thesis using assms(2) by linarith
  qed
  then have "b1 / 2 ^ 53 \<le> (a + 1) / 2 ^ 53"
    by (rule divide_right_mono) simp
  with b2 have b2': "b2 \<le> 2 * (a / 2 ^ 53) + 1 / 2 ^ 53 + 1 / 2 ^ 60"
    by (simp add: add_divide_distrib)
  have k1: "(1::rat) / (3600 * 2 ^ 60) \<le> 1 / 2 ^ 53" by simp
  have k2: "(1::rat) / 2 ^ 60 \<le> 1 / 2 ^ 53" by simp
  define x where "x = a / 2 ^ 53"
  define y where "y = (1::rat) / 2 ^ 53"
  have e: "(a + 1) / 2 ^ 50 = 8 * x + 8 * y"
    by (simp add: x_def y_def)
  have "0 \<le> x" "0 \<le> y" using assms(1) by (simp_all add: x_def y_def)
  moreover from assms(2) k1 have "b1 \<le> x + y" unfolding x_def y_def by linarith
  moreover from b2' k2 have "b2 \<le> 2 * x + 2 * y" unfolding x_def y_def by linarith
  ultimately have "b3 + b2 + b1 \<le> 1 / 200 + (8 * x + 8 * y)"
    using assms(4) by linarith
  with assms(6) show ?thesis unfolding e by linarith
qed

lemma hours_two_decimals:
  "\<exists>k::int. py_round2 (float_div (total_seconds d) 3600) = binary64 (of_int k / 100)
      \<and> \<bar>(of_int k :: rat) / 100 - of_int d / 3600000000\<bar>
            \<le> 1 / 200 + (\<bar>of_int d / 3600000000\<bar> + 1) / 2 ^ 50"
proof -
  define E :: rat where "E = of_int d / 3600000000"
  define y1 where "y1 = total_seconds d / 3600"
  define x2 where "x2 = float_div (total_seconds d) 3600"
  define k where "k = round_half_even (x2 * 100)"
  have A: "of_int d / 1000000 = E * 3600" by (simp add: E_def)
  have ts: "total_seconds d = binary64 (E * 3600)"
    by (simp add: total_seconds_def us_per_second_def E_def)
  have "\<bar>total_seconds d - E * 3600\<bar> \<le> \<bar>E * 3600\<bar> / 2 ^ 53 + 1 / 2 ^ 60"
    unfolding ts by (rule binary64_rel_error)
  then have "\<bar>total_seconds d - E * 3600\<bar> / 3600 \<le> (\<bar>E * 3600\<bar> / 2 ^ 53 + 1 / 2 ^ 60) / 3600"
    by (rule divide_right_mono) simp
  moreover have "\<bar>total_seconds d - E * 3600\<bar> / 3600 = \<bar>y1 - E\<bar>"
    by (simp add: y1_def abs_if field_simps)
  moreover have "(\<bar>E * 3600\<bar> / 2 ^ 53 + 1 / 2 ^ 60) / 3600 = \<bar>E\<bar> / 2 ^ 53 + 1 / (3600 * 2 ^ 60)"
    by (simp add: abs_mult field_simps)
  ultimately have e1: "\<bar>y1 - E\<bar> \<le> \<bar>E\<bar> / 2 ^ 53 + 1 / (3600 * 2 ^ 60)" by simp
  have e2: "\<bar>x2 - y1\<bar> \<le> \<bar>y1\<bar> / 2 ^ 53 + 1 / 2 ^ 60"
    using binary64_rel_error [of y1] by (simp add: x2_def y1_def float_div_def)
  have "\<bar>of_int k - x2 * 100\<bar> \<le> 1 / 2"
    unfolding k_def by (rule round_half_even_error)
  then have "\<bar>of_int k - x2 * 100\<bar> / 100 \<le> (1 / 2) / 100"
    by (rule divide_right_mono) simp
  moreover have "\<bar>of_int k - x2 * 100\<bar> / 100 = \<bar>of_int k / 100 - x2\<bar>"
    by (simp add: abs_if field_simps)
  ultimately have e3: "\<bar>of_int k / 100 - x2\<bar> \<le> 1 / 200" by simp
  have ay: "\<bar>y1\<bar> \<le> \<bar>E\<bar> + \<bar>y1 - E\<bar>" by linarith
  have tri: "\<bar>of_int k / 100 - E\<bar> \<le> \<bar>of_int k / 100 - x2\<bar> + \<bar>x2 - y1\<bar> + \<bar>y1 - E\<bar>"
    by linarith
  define a where "a = \<bar>E\<bar>"
  define b1 where "b1 = \<bar>y1 - E\<bar>"
  define b2 where "b2 = \<bar>x2 - y1\<bar>"
  define b3 where "b3 = \<bar>of_int k / 100 - x2\<bar>"
  define c where "c = \<bar>y1\<bar>"
  define g where "g = \<bar>of_int k / 100 - E\<bar>"
  have "0 \<le> a" by (simp add: a_def)
  moreover from e1 have "b1 \<le> a / 2 ^ 53 + 1 / (3600 * 2 ^ 60)" by (simp add: a_def b1_def)
  moreover from e2 have "b2 \<le> c / 2 ^ 53 + 1 / 2 ^ 60" by (simp add: b2_def c_def)
  moreover from e3 have "b3 \<le> 1 / 200" by (simp add: b3_def)
  moreover from ay have "c \<le> a + b1" by (simp add: a_def b1_def c_def)
  moreover from tri have "g \<le> b3 + b2 + b1" by (simp add: g_def b1_def b2_def b3_def)
  ultimately have "g \<le> 1 / 200 + (a + 1) / 2 ^ 50" by (rule hours_error_budget)
  then have "\<bar>of_int k / 100 - E\<bar> \<le> 1 / 200 + (\<bar>E\<bar> + 1) / 2 ^ 50"
    by (simp only: g_def a_def)
  moreover have "py_round2 (float_div (total_seconds d) 3600) = binary64 (of_int k / 100)"
    by (simp add: py_round2_def k_def x2_def)
  ultimately show ?thesis unfolding E_def by blast
qed

text \<open>
  Values that Python computes: \<^verbatim>\<open>0.1\<close>, \<^verbatim>\<open>round(0.125, 2) == 0.12\<close>,
  \<^verbatim>\<open>round(0.375, 2) == 0.38\<close>, and the hours of 18 seconds: \<^verbatim>\<open>18.0 / 3600\<close> is the
  double just above 0.005, so it rounds to \<^verbatim>\<open>0.01\<close>.
\<close>

lemma float_examples:
  "binary64 (1 / 10) = 3602879701896397 / 2 ^ 55"
  "py_round2 (1 / 8) = binary64 (12 / 100)"
  "py_round2 (3 / 8) = binary64 (38 / 100)"
  "float_div (total_seconds 18000000) 3600 = 5764607523034235 / 2 ^ 60"
  "py_round2 (float_div (total_seconds 18000000) 3600) = binary64 (1 / 100)"
  by code_simp+

lemma round_half_even_nonneg: "0 \<le> q \<Longrightarrow> 0 \<le> round_half_even q"
  by (simp add: round_half_even_def Let_def)

lemma binary64_nonneg: "0 \<le> q \<Longrightarrow> 0 \<le> binary64 q"
proof -
  assume q: "0 \<le> q"
  have "0 \<le> of_int (round_half_even (q / pow2 p)) * pow2 p" for p
  proof -
    from q pow2_pos [of p] have "0 \<le> q / pow2 p" by simp
    then have "0 \<le> round_half_even (q / pow2 p)" by (rule round_half_even_nonneg)
    with pow2_pos [of p] show ?thesis by simp
  qed
  then show ?thesis by (simp add: binary64_def Let_def)
qed

lemma hours_nonneg: "0 \<le> d \<Longrightarrow> 0 \<le> py_round2 (float_div (total_seconds d) 3600)"
proof -
  assume "0 \<le> d"
  then have "0 \<le> total_seconds d"
    by (simp add: total_seconds_def us_per_second_def binary64_nonneg)
  then have "0 \<le> float_div (total_seconds d) 3600"
    by (simp add: float_div_def binary64_nonneg)
  then have "0 \<le> round_half_even (float_div (total_seconds d) 3600 * 100)"
    by (simp add: round_half_even_nonneg)
  then show ?thesis by (simp add: py_round2_def binary64_nonneg)
qed

lemma hours_0830_to_1700:
  "py_round2 (float_div (total_seconds (17 * 3600 * 1000000 - (8 * 3600 + 30 * 60) * 1000000)) 3600)
     = 17 / 2"
  by code_simp

lemma hours_0830_to_1707:
  "py_round2 (float_div (total_seconds ((17 * 3600 + 7 * 60) * 1000000 - (8 * 3600 + 30 * 60) * 1000000)) 3600)
     = 4852628598491709 / 2 ^ 49"
  by code_simp

lemma float_862: "binary64 (862 / 100) = 4852628598491709 / 2 ^ 49"
  by code_simp

lemma unrounded_0830_to_1707:
  "float_div (total_seconds ((17 * 3600 + 7 * 60) * 1000000 - (8 * 3600 + 30 * 60) * 1000000)) 3600
     = 1212688024661743 / 2 ^ 47"
  by code_simp

section \<open>Looking up a user\<close>

lemma objects_get_absent:
  "eid \<notin> Some ` employee_id ` set rows \<Longrightarrow> objects_get rows eid = Inl DoesNotExist"
proof -
  assume "eid \<notin> Some ` employee_id ` set rows"
  then have "filter (\<lambda>u. Some (employee_id u) = eid) rows = []"
    by (auto simp: filter_empty_conv)
  then show ?thesis by (simp add: objects_get_def)
qed

lemma filter_unique_key:
  "distinct (map f rows) \<Longrightarrow> u \<in> set rows \<Longrightarrow> filter (\<lambda>v. f v = f u) rows = [u]"
proof (induction rows)
  case Nil
  then show ?case by simp
next
  case (Cons r rows)
  show ?case
  proof (cases "r = u")
    case True
    with Cons.prems have "filter (\<lambda>v. f v = f u) rows = []"
      by (auto simp: filter_empty_conv image_iff)
    with True show ?thesis by simp
  next
    case False
    with Cons.prems have "u \<in> set rows" "f r \<noteq> f u" by auto
    with Cons show ?thesis by simp
  qed
qed

lemma objects_get_found:
  "distinct (map employee_id rows) \<Longrightarrow> u \<in> set rows \<Longrightarrow>
   objects_get rows (Some (employee_id u)) = Inr u"
  using filter_unique_key [of employee_id rows u] by (simp add: objects_get_def)

lemma objects_get_cases:
  "objects_get rows eid = Inl DoesNotExist \<or> objects_get rows eid = Inl MultipleObjectsReturned
   \<or> (\<exists>u. objects_get rows eid = Inr u)"
  by (simp add: objects_get_def split: list.splits)

lemma objects_get_Inr:
  "objects_get rows eid = Inr u \<Longrightarrow> u \<in> set rows \<and> Some (employee_id u) = eid"
proof -
  assume a: "objects_get rows eid = Inr u"
  then have "filter (\<lambda>u. Some (employee_id u) = eid) rows = [u]"
    by (simp add: objects_get_def split: list.splits)
  then have "u \<in> set (filter (\<lambda>u. Some (employee_id u) = eid) rows)" by simp
  then show ?thesis by simp
qed

section \<open>The loop of clock\_in\<close>

lemma clock_out_each_ticks: "ticks (clock_out_each clk tz es s) = ticks s + length es"
  by (induction es arbitrary: s) (simp_all add: clock_out_ticks)

lemma clock_out_each_users: "users (clock_out_each clk tz es s) = users s"
  by (induction es arbitrary: s) (simp_all add: clock_out_users)

lemma clock_out_each_rows:
  "r \<in> set (entries (clock_out_each clk tz es s)) \<Longrightarrow>
   time_out r \<noteq> None \<or> (r \<in> set (entries s) \<and> pk r \<notin> pk ` set es)"
proof (induction es arbitrary: s)
  case Nil
  then show ?case by simp
next
  case (Cons e es)
  from Cons.prems have "r \<in> set (entries (clock_out_each clk tz es (snd (clock_out clk tz e s))))"
    by simp
  from Cons.IH [OF this] show ?case
  proof
    assume "time_out r \<noteq> None"
    then show ?thesis by simp
  next
    assume a: "r \<in> set (entries (snd (clock_out clk tz e s))) \<and> pk r \<notin> pk ` set es"
    then have "r = fst (clock_out clk tz e s) \<or> (r \<in> set (entries s) \<and> pk r \<noteq> pk e)"
      using clock_out_rows by blast
    then show ?thesis
    proof
      assume "r = fst (clock_out clk tz e s)"
      then show ?thesis by (simp add: clock_out_time_out)
    next
      assume "r \<in> set (entries s) \<and> pk r \<noteq> pk e"
      with a show ?thesis by simp
    qed
  qed
qed

lemma clock_out_each_keeps:
  "r \<in> set (entries s) \<Longrightarrow> pk r \<notin> pk ` set es \<Longrightarrow>
   r \<in> set (entries (clock_out_each clk tz es s))"
proof (induction es arbitrary: s)
  case Nil
  then show ?case by simp
next
  case (Cons e es)
  from Cons.prems have "r \<in> set (entries (snd (clock_out clk tz e s)))"
    by (simp add: clock_out_keeps)
  moreover from Cons.prems have "pk r \<notin> pk ` set es" by simp
  ultimately show ?case using Cons.IH by simp
qed

lemma clock_out_each_pks:
  "pk ` set (entries s) \<subseteq> pk ` set (entries (clock_out_each clk tz es s))"
proof (induction es arbitrary: s)
  case Nil
  then show ?case by simp
next
  case (Cons e es)
  have "pk ` set (entries s) \<subseteq> pk ` set (entries (snd (clock_out clk tz e s)))"
    using save_pks [of "s\<lparr>ticks := Suc (ticks s)\<rparr>" "fst (clock_out clk tz e s)"]
    by (simp add: clock_out_snd [symmetric])
  with Cons.IH [of "snd (clock_out clk tz e s)"] show ?case by auto
qed

lemma clock_out_each_no_open:
  "open_entries_of user (entries (clock_out_each clk tz (open_entries_of user (entries s)) s)) = []"
proof -
  have "\<not> (user_id r = uid user \<and> time_out r = None)"
    if "r \<in> set (entries (clock_out_each clk tz (open_entries_of user (entries s)) s))" for r
  proof
    assume o: "user_id r = uid user \<and> time_out r = None"
    with clock_out_each_rows [OF that]
    have "r \<in> set (entries s)" "pk r \<notin> pk ` set (open_entries_of user (entries s))" by auto
    moreover from o \<open>r \<in> set (entries s)\<close> have "r \<in> set (open_entries_of user (entries s))"
      by (simp add: open_entries_of_def)
    ultimately show False by blast
  qed
  then show ?thesis by (auto simp: open_entries_of_def filter_empty_conv)
qed

lemma clock_out_each_nth:
  "distinct (map pk es) \<Longrightarrow> set es \<subseteq> set (entries s) \<Longrightarrow> i < length es \<Longrightarrow>
   fst (clock_out clk tz (es ! i) (s\<lparr>ticks := ticks s + i\<rparr>))
     \<in> set (entries (clock_out_each clk tz es s))"
proof (induction es arbitrary: s i)
  case Nil
  then show ?case by simp
next
  case (Cons e es)
  let ?s1 = "snd (clock_out clk tz e s)"
  show ?case
  proof (cases i)
    case 0
    have "fst (clock_out clk tz e s) \<in> set (entries ?s1)"
      by (simp only: clock_out_snd saved_in_table)
    moreover from Cons.prems(1) have "pk (fst (clock_out clk tz e s)) \<notin> pk ` set es"
      by (simp add: clock_out_pk)
    ultimately have "fst (clock_out clk tz e s) \<in> set (entries (clock_out_each clk tz es ?s1))"
      by (rule clock_out_each_keeps)
    moreover have "fst (clock_out clk tz e (s\<lparr>ticks := ticks s + 0\<rparr>)) = fst (clock_out clk tz e s)"
      by (rule clock_out_fst_ticks) simp
    ultimately show ?thesis using 0 by simp
  next
    case (Suc j)
    have sub: "set es \<subseteq> set (entries ?s1)"
    proof
      fix r assume r: "r \<in> set es"
      then have "pk r \<in> pk ` set es" by (rule imageI)
      moreover from Cons.prems(1) have "pk e \<notin> pk ` set es" by simp
      ultimately have "pk r \<noteq> pk e" by metis
      moreover from r Cons.prems(2) have "r \<in> set (entries s)" by auto
      ultimately show "r \<in> set (entries ?s1)" by (simp add: clock_out_keeps)
    qed
    from Cons.prems(1) have d: "distinct (map pk es)" by simp
    from Cons.prems(3) Suc have j: "j < length es" by simp
    from Cons.IH [OF d sub j]
    have "fst (clock_out clk tz (es ! j) (?s1\<lparr>ticks := ticks ?s1 + j\<rparr>))
            \<in> set (entries (clock_out_each clk tz es ?s1))" .
    moreover have "fst (clock_out clk tz (es ! j) (?s1\<lparr>ticks := ticks ?s1 + j\<rparr>))
        = fst (clock_out clk tz (es ! j) (s\<lparr>ticks := ticks s + Suc j\<rparr>))"
      by (rule clock_out_fst_ticks) (simp add: clock_out_ticks)
    ultimately show ?thesis using Suc by simp
  qed
qed

lemma open_entries_subset: "set (open_entries_of user rows) \<subseteq> set rows"
  by (auto simp: open_entries_of_def)

lemma open_entries_distinct:
  "distinct (map pk rows) \<Longrightarrow> distinct (map pk (open_entries_of user rows))"
  by (simp add: open_entries_of_def distinct_map_filter)

lemma open_entries_of_empty:
  "(open_entries_of u rows = []) = (\<forall>e \<in> set rows. user_id e = uid u \<longrightarrow> time_out e \<noteq> None)"
  by (auto simp: open_entries_of_def filter_empty_conv)

lemma new_pk_fresh: "r \<in> set rows \<Longrightarrow> pk r < new_pk rows"
  by (induction rows) (auto simp: new_pk_def)

section \<open>What clock\_in computes\<close>

text \<open>
  The comparison of the lateness branch has an aware datetime on its left, from
  \<^verbatim>\<open>timezone.localtime\<close>, and a naive one on its right, from \<^verbatim>\<open>datetime.combine\<close>:
  whenever the branch is entered, it raises.
\<close>

lemma dt_gt_aware_naive:
  "dt_gt (localtime tz t) (dt_add (combine d x) g) = Inl TypeError"
  by (simp add: localtime_def combine_def)

lemma clock_in_fst:
  "fst (clock_in clk tz user s) =
     (let s1 = clock_out_each clk tz (open_entries_of user (entries s)) s;
          new_entry = \<lparr>pk = new_pk (entries s1), user_id = uid user, time_in = clk (ticks s1),
                       time_out = None, hours_worked = None, is_late = False\<rparr>
      in if entries_on_date tz user (dt_date (utc (clk (Suc (ticks s1)))))
              (entries s1 @ [new_entry]) = []
         then Inl TypeError else Inr new_entry)"
  by (simp add: clock_in_def objects_create_def timezone_now_def Let_def dt_gt_aware_naive)

lemma clock_in_snd:
  "snd (clock_in clk tz user s) =
     (let s1 = clock_out_each clk tz (open_entries_of user (entries s)) s;
          new_entry = \<lparr>pk = new_pk (entries s1), user_id = uid user, time_in = clk (ticks s1),
                       time_out = None, hours_worked = None, is_late = False\<rparr>
      in s1\<lparr>entries := entries s1 @ [new_entry], ticks := Suc (Suc (ticks s1))\<rparr>)"
  by (simp add: clock_in_def objects_create_def timezone_now_def Let_def dt_gt_aware_naive)

lemma clock_in_ledger_0830:
  "fst (clock_in clock_1700 utc_zone alice ledger_0830) =
     Inr \<lparr>pk = 2, user_id = 1, time_in = 17 * 3600 * 1000000,
          time_out = None, hours_worked = None, is_late = False\<rparr>"
  by (simp add: clock_in_fst Let_def ledger_0830_def open_entries_of_def entries_on_date_def
      local_date utc_date clock_1700_def utc_zone_def alice_def new_pk_def entry_0830_def
      clock_out_snd clock_out_fst save_def)

section \<open>The views\<close>

lemma clock_in_view_found:
  "objects_get (users s) eid = Inr u \<Longrightarrow>
   clock_in_view clk tz s eid secret =
     (if pin u \<noteq> secret then (Inr (Failure ''Incorrect PIN''), s)
      else (case clock_in clk tz u s of
              (Inl err, s') \<Rightarrow> (Inl err, s')
            | (Inr entry, s') \<Rightarrow>
                (Inr (Success \<lparr>p_employee_id = employee_id u, p_first_name = first_name u,
                                p_surname = surname u, p_company = company u,
                                p_time_in = localtime tz (time_in entry), p_time_out = None\<rparr>),
                 s')))"
  by (simp add: clock_in_view_def)

lemma clock_out_view_found:
  "objects_get (users s) eid = Inr u \<Longrightarrow>
   clock_out_view clk tz s eid secret =
     (if pin u \<noteq> secret then (Inr (Failure ''Incorrect PIN''), s)
      else (case latest (open_entries_of u (entries s)) of
              Inl DoesNotExist \<Rightarrow> (Inr (Failure ''No active clock in found.''), s)
            | Inl err \<Rightarrow> (Inl err, s)
            | Inr open_entry \<Rightarrow>
                (let (e, s') = clock_out clk tz open_entry s
                 in (Inr (Success \<lparr>p_employee_id = employee_id u,
                                    p_first_name = first_name u,
                                    p_surname = surname u, p_company = company u,
                                    p_time_in = localtime tz (time_in e),
                                    p_time_out = map_option (localtime tz) (time_out e)\<rparr>),
                     s'))))"
  by (simp add: clock_out_view_def)

lemma login_view_found:
  "objects_get (users s) eid = Inr u \<Longrightarrow>
   login_view s ''POST'' eid secret =
     (if pin u \<noteq> secret then Inr (Render (Some ''Incorrect PIN''))
      else if is_staff u \<or> is_superuser u then Inr RedirectAdmin
      else Inr RedirectUserPage)"
  by (simp add: login_view_def)

lemma clock_in_view_incorrect_pin_iff:
  "objects_get (users s) eid = Inr u \<Longrightarrow>
   (fst (clock_in_view clk tz s eid secret) = Inr (Failure ''Incorrect PIN'')) = (pin u \<noteq> secret)"
  by (simp add: clock_in_view_found split: prod.splits sum.splits)

lemma clock_out_view_incorrect_pin_iff:
  "objects_get (users s) eid = Inr u \<Longrightarrow>
   (fst (clock_out_view clk tz s eid secret) = Inr (Failure ''Incorrect PIN'')) = (pin u \<noteq> secret)"
  by (simp add: clock_out_view_found Let_def split: prod.splits sum.splits exn.splits)

lemma login_view_incorrect_pin_iff:
  "objects_get (users s) eid = Inr u \<Longrightarrow>
   (login_view s ''POST'' eid secret = Inr (Render (Some ''Incorrect PIN''))) = (pin u \<noteq> secret)"
  by (simp add: login_view_found)

lemma clock_in_view_state:
  "snd (clock_in_view clk tz s eid secret) = s
   \<or> (\<exists>u. snd (clock_in_view clk tz s eid secret) = snd (clock_in clk tz u s))"
proof (cases "objects_get (users s) eid")
  case (Inl err)
  then show ?thesis by (cases err) (simp_all add: clock_in_view_def)
next
  case (Inr u)
  show ?thesis
  proof (cases "pin u \<noteq> secret")
    case True
    with Inr show ?thesis by (simp add: clock_in_view_found)
  next
    case False
    with Inr have "snd (clock_in_view clk tz s eid secret) = snd (clock_in clk tz u s)"
      by (simp add: clock_in_view_found split: prod.splits sum.splits)
    then show ?thesis by blast
  qed
qed

lemma clock_out_view_state:
  "snd (clock_out_view clk tz s eid secret) = s
   \<or> (\<exists>e. snd (clock_out_view clk tz s eid secret) = snd (clock_out clk tz e s))"
proof (cases "objects_get (users s) eid")
  case (Inl err)
  then show ?thesis by (cases err) (simp_all add: clock_out_view_def)
next
  case (Inr u)
  show ?thesis
  proof (cases "pin u \<noteq> secret")
    case True
    with Inr show ?thesis by (simp add: clock_out_view_found)
  next
    case False
    note pin_ok = this
    show ?thesis
    proof (cases "latest (open_entries_of u (entries s))")
      case (Inl err)
      with Inr pin_ok show ?thesis by (cases err) (simp_all add: clock_out_view_found)
    next
      case (Inr open_entry)
      with \<open>objects_get (users s) eid = Inr u\<close> pin_ok
      have "snd (clock_out_view clk tz s eid secret) = snd (clock_out clk tz open_entry s)"
        by (simp add: clock_out_view_found split: prod.splits)
      then show ?thesis by blast
    qed
  qed
qed

section \<open>Preservation of populated rows\<close>

lemma clock_out_populated: "fully_populated (fst (clock_out clk tz e s))"
  by (simp add: fully_populated_def clock_out_fst hours_nonneg)

lemma clock_out_preserves_populated:
  "list_all fully_populated (entries s) \<Longrightarrow>
   list_all fully_populated (entries (snd (clock_out clk tz e s)))"
  using clock_out_rows [of _ clk tz e s] clock_out_populated [of clk tz e s]
  by (auto simp: list_all_iff)

lemma clock_out_each_preserves_populated:
  "list_all fully_populated (entries s) \<Longrightarrow>
   list_all fully_populated (entries (clock_out_each clk tz es s))"
  by (induction es arbitrary: s) (simp_all add: clock_out_preserves_populated)

lemma clock_in_preserves_populated:
  "list_all fully_populated (entries s) \<Longrightarrow>
   list_all fully_populated (entries (snd (clock_in clk tz user s)))"
  by (simp add: clock_in_snd Let_def clock_out_each_preserves_populated fully_populated_def)

section \<open>Lateness at creation\<close>

text \<open>
  Claim C1 says that a first clock-in of the day at 08:06 local time is marked late. The
  method tests for entries of today after it has inserted the new one, so the test
  finds that entry and the lateness rule is skipped: with no entry in the ledger, the
  zone UTC and the clock at 08:06, the entry that \<^verbatim>\<open>clock_in\<close> returns has \<open>is_late\<close>
  false.
\<close>

theorem clock_in_first_entry_0806_not_late:
  "fst (clock_in clock_0806 utc_zone alice empty_ledger) =
     Inr \<lparr>pk = 1, user_id = 1, time_in = (8 * 3600 + 6 * 60) * 1000000,
          time_out = None, hours_worked = None, is_late = False\<rparr>"
  by (simp add: clock_in_fst Let_def empty_ledger_def open_entries_of_def entries_on_date_def
      local_date utc_date clock_0806_def utc_zone_def alice_def new_pk_def)

text \<open>
  Claim C8 says that every call of \<^verbatim>\<open>clock_in\<close> returns the new entry, with \<open>is_late\<close>
  false, because the test for entries of today always finds the entry just created and
  the lateness branch is never entered. When the date changes between the insertion and
  the test, the test does not find it: an entry created at 23:59:59.999999 is not an
  entry of the next day. The branch is entered, its comparison of the aware
  \<^verbatim>\<open>time_in_local\<close> with the naive \<^verbatim>\<open>expected_start_with_grace\<close> raises
  \<^verbatim>\<open>TypeError\<close>, and the call returns no entry.
\<close>

theorem clock_in_midnight_raises:
  "fst (clock_in midnight_clock utc_zone alice empty_ledger) = Inl TypeError"
  by (simp add: clock_in_fst Let_def empty_ledger_def open_entries_of_def entries_on_date_def
      local_date utc_date midnight_clock_def utc_zone_def alice_def)

section \<open>One open entry\<close>

text \<open>
  Claim C2. After \<^verbatim>\<open>clock_in\<close> at most one entry of the user is open; when the method
  returns an entry, that entry is the only open one; and every row that was open for the
  user before the call is closed after it.
\<close>

theorem clock_in_at_most_one_open:
  "length (open_entries_of user (entries (snd (clock_in clk tz user s)))) \<le> 1
   \<and> (\<forall>e. fst (clock_in clk tz user s) = Inr e \<longrightarrow>
         open_entries_of user (entries (snd (clock_in clk tz user s))) = [e])
   \<and> (\<forall>r \<in> set (entries (snd (clock_in clk tz user s))).
         pk r \<in> pk ` set (open_entries_of user (entries s)) \<longrightarrow> time_out r \<noteq> None)"
proof -
  let ?opens = "open_entries_of user (entries s)"
  let ?s1 = "clock_out_each clk tz ?opens s"
  let ?new = "\<lparr>pk = new_pk (entries ?s1), user_id = uid user, time_in = clk (ticks ?s1),
                time_out = None, hours_worked = None, is_late = False\<rparr>"
  have rows: "entries (snd (clock_in clk tz user s)) = entries ?s1 @ [?new]"
    by (simp add: clock_in_snd Let_def)
  have "open_entries_of user (entries ?s1 @ [?new]) = open_entries_of user (entries ?s1) @ [?new]"
    by (simp add: open_entries_of_def)
  then have opens: "open_entries_of user (entries (snd (clock_in clk tz user s))) = [?new]"
    by (simp add: rows clock_out_each_no_open)
  have ret: "open_entries_of user (entries (snd (clock_in clk tz user s))) = [e]"
    if "fst (clock_in clk tz user s) = Inr e" for e
  proof -
    from that have "e = ?new"
      by (simp add: clock_in_fst Let_def split: if_splits)
    with opens show ?thesis by simp
  qed
  have closed: "time_out r \<noteq> None"
    if r: "r \<in> set (entries (snd (clock_in clk tz user s)))"
      and k: "pk r \<in> pk ` set ?opens" for r
  proof -
    from k open_entries_subset [of user "entries s"] have "pk r \<in> pk ` set (entries s)" by blast
    with clock_out_each_pks [of s clk tz ?opens] have "pk r \<in> pk ` set (entries ?s1)" by blast
    then obtain r' where "r' \<in> set (entries ?s1)" "pk r = pk r'" by blast
    with new_pk_fresh [of r' "entries ?s1"] have "pk r \<noteq> new_pk (entries ?s1)" by simp
    then have "r \<noteq> ?new" by auto
    with r rows have "r \<in> set (entries ?s1)" by simp
    from clock_out_each_rows [OF this] k show ?thesis by blast
  qed
  from opens ret closed show ?thesis by simp
qed

theorem clock_in_at_most_one_open_witness:
  "open_entries_of alice (entries ledger_0830) = [entry_0830]
   \<and> fst (clock_in clock_1700 utc_zone alice ledger_0830) =
       Inr \<lparr>pk = 2, user_id = 1, time_in = 17 * 3600 * 1000000,
            time_out = None, hours_worked = None, is_late = False\<rparr>
   \<and> open_entries_of alice (entries (snd (clock_in clock_1700 utc_zone alice ledger_0830))) =
       [\<lparr>pk = 2, user_id = 1, time_in = 17 * 3600 * 1000000,
         time_out = None, hours_worked = None, is_late = False\<rparr>]
   \<and> length (entries (snd (clock_in clock_1700 utc_zone alice ledger_0830))) = 2
   \<and> list_all (\<lambda>r. pk r \<noteq> 1 \<or> time_out r \<noteq> None)
        (entries (snd (clock_in clock_1700 utc_zone alice ledger_0830)))"
proof -
  have a: "open_entries_of alice (entries ledger_0830) = [entry_0830]"
    by (simp add: ledger_0830_def open_entries_of_def entry_0830_def alice_def)
  have k: "pk entry_0830 = 1" by (simp add: entry_0830_def)
  have l: "length (entries (snd (clock_in clock_1700 utc_zone alice ledger_0830))) = 2"
    by (simp add: clock_in_snd Let_def ledger_0830_def open_entries_of_def entry_0830_def
        alice_def clock_out_snd save_def clock_out_fst)
  note t = clock_in_at_most_one_open
    [where user = alice and clk = clock_1700 and tz = utc_zone and s = ledger_0830]
  from t clock_in_ledger_0830
  have b: "open_entries_of alice (entries (snd (clock_in clock_1700 utc_zone alice ledger_0830))) =
       [\<lparr>pk = 2, user_id = 1, time_in = 17 * 3600 * 1000000,
         time_out = None, hours_worked = None, is_late = False\<rparr>]"
    by blast
  from t have "\<forall>r \<in> set (entries (snd (clock_in clock_1700 utc_zone alice ledger_0830))).
         pk r \<in> pk ` set (open_entries_of alice (entries ledger_0830)) \<longrightarrow> time_out r \<noteq> None"
    by blast
  then have c: "list_all (\<lambda>r. pk r \<noteq> 1 \<or> time_out r \<noteq> None)
        (entries (snd (clock_in clock_1700 utc_zone alice ledger_0830)))"
    unfolding a by (auto simp: list_all_iff k)
  from a b c l clock_in_ledger_0830 show ?thesis by simp
qed

section \<open>Closing an entry\<close>

text \<open>
  Claim C3. \<^verbatim>\<open>clock_out\<close> on an entry that is already closed sets \<open>time_out\<close> to the
  current time, computes \<open>hours_worked\<close> from it and computes \<open>is_late\<close> again, and
  saves the result; when the current time differs from the old \<open>time_out\<close> the record
  changes and the old record is no longer in the table. The call cannot be rejected:
  \<^verbatim>\<open>clock_out\<close> has no failing result.
\<close>

theorem clock_out_not_idempotent:
  "time_out e = Some t0 \<longrightarrow>
     time_out (fst (clock_out clk tz e s)) = Some (clk (ticks s))
   \<and> hours_worked (fst (clock_out clk tz e s))
       = Some (py_round2 (float_div (total_seconds (clk (ticks s) - time_in e)) 3600))
   \<and> is_late (fst (clock_out clk tz e s))
       = (9 * 3600 * 1000000 < (time_in e + tz (time_in e)) mod (86400 * 1000000))
   \<and> fst (clock_out clk tz e s) \<in> set (entries (snd (clock_out clk tz e s)))
   \<and> (clk (ticks s) \<noteq> t0 \<longrightarrow>
        fst (clock_out clk tz e s) \<noteq> e \<and> e \<notin> set (entries (snd (clock_out clk tz e s))))"
proof
  assume c: "time_out e = Some t0"
  have i: "fst (clock_out clk tz e s) \<in> set (entries (snd (clock_out clk tz e s)))"
    by (simp only: clock_out_snd saved_in_table)
  have n: "fst (clock_out clk tz e s) \<noteq> e \<and> e \<notin> set (entries (snd (clock_out clk tz e s)))"
    if "clk (ticks s) \<noteq> t0"
  proof -
    from that c have "time_out (fst (clock_out clk tz e s)) \<noteq> time_out e"
      by (simp add: clock_out_time_out)
    then have d: "fst (clock_out clk tz e s) \<noteq> e" by auto
    have "e \<notin> set (entries (snd (clock_out clk tz e s)))"
    proof
      assume "e \<in> set (entries (snd (clock_out clk tz e s)))"
      from clock_out_rows [OF this] d show False by auto
    qed
    with d show ?thesis by simp
  qed
  from i n show "time_out (fst (clock_out clk tz e s)) = Some (clk (ticks s))
   \<and> hours_worked (fst (clock_out clk tz e s))
       = Some (py_round2 (float_div (total_seconds (clk (ticks s) - time_in e)) 3600))
   \<and> is_late (fst (clock_out clk tz e s))
       = (9 * 3600 * 1000000 < (time_in e + tz (time_in e)) mod (86400 * 1000000))
   \<and> fst (clock_out clk tz e s) \<in> set (entries (snd (clock_out clk tz e s)))
   \<and> (clk (ticks s) \<noteq> t0 \<longrightarrow>
        fst (clock_out clk tz e s) \<noteq> e \<and> e \<notin> set (entries (snd (clock_out clk tz e s))))"
    by (simp add: clock_out_fst local_time_of_day nine_oclock)
qed

theorem clock_out_not_idempotent_witness:
  "time_out entry_closed = Some (12 * 3600 * 1000000)
   \<and> hours_worked entry_closed = Some (7 / 2)
   \<and> clock_1700 (ticks ledger_closed) \<noteq> 12 * 3600 * 1000000
   \<and> time_out (fst (clock_out clock_1700 utc_zone entry_closed ledger_closed))
        = Some (17 * 3600 * 1000000)
   \<and> hours_worked (fst (clock_out clock_1700 utc_zone entry_closed ledger_closed)) = Some (17 / 2)
   \<and> entry_closed \<in> set (entries ledger_closed)
   \<and> entry_closed \<notin> set (entries (snd (clock_out clock_1700 utc_zone entry_closed ledger_closed)))"
proof -
  have a: "time_out entry_closed = Some (12 * 3600 * 1000000)"
    "hours_worked entry_closed = Some (7 / 2)"
    "entry_closed \<in> set (entries ledger_closed)"
    by (simp_all add: entry_closed_def ledger_closed_def)
  have b: "clock_1700 (ticks ledger_closed) \<noteq> 12 * 3600 * 1000000"
    by (simp add: clock_1700_def)
  have c: "clock_1700 (ticks ledger_closed) = 17 * 3600 * 1000000"
    by (simp add: clock_1700_def)
  have d: "time_in entry_closed = (8 * 3600 + 30 * 60) * 1000000"
    by (simp add: entry_closed_def)
  from a b clock_out_not_idempotent
    [where e = entry_closed and ?t0.0 = "12 * 3600 * 1000000" and clk = clock_1700
       and tz = utc_zone and s = ledger_closed]
  show ?thesis unfolding c d hours_0830_to_1700 by blast
qed

text \<open>
  Claim C4. For every entry that \<^verbatim>\<open>clock_out\<close> closes, \<open>is_late\<close> becomes true exactly
  when the local time of day of \<open>time_in\<close> is strictly after 09:00, with no grace period;
  the closed entry is the row saved under its key. An entry with \<open>time_in\<close> at 08:30
  local time ends with \<open>is_late\<close> false.
\<close>

theorem clock_out_is_late:
  "is_late (fst (clock_out clk tz e s)) =
     (9 * 3600 * 1000000 < (time_in e + tz (time_in e)) mod (86400 * 1000000))
   \<and> fst (clock_out clk tz e s) \<in> set (entries (snd (clock_out clk tz e s)))
   \<and> (\<forall>r \<in> set (entries (snd (clock_out clk tz e s))). pk r = pk e \<longrightarrow>
        r = fst (clock_out clk tz e s))
   \<and> ((time_in e + tz (time_in e)) mod (86400 * 1000000) = (8 * 3600 + 30 * 60) * 1000000 \<longrightarrow>
        \<not> is_late (fst (clock_out clk tz e s)))"
proof -
  let ?late = "9 * 3600 * 1000000 < (time_in e + tz (time_in e)) mod (86400 * 1000000)"
  have a: "is_late (fst (clock_out clk tz e s)) = ?late"
    by (simp add: clock_out_fst local_time_of_day nine_oclock)
  have b: "fst (clock_out clk tz e s) \<in> set (entries (snd (clock_out clk tz e s)))"
    by (simp only: clock_out_snd saved_in_table)
  have c: "r = fst (clock_out clk tz e s)"
    if "r \<in> set (entries (snd (clock_out clk tz e s)))" "pk r = pk e" for r
  proof -
    have "pk (fst (clock_out clk tz e s)) = pk e" by (simp add: clock_out_fst)
    with that show ?thesis
      using saved_row_unique_by_pk [of r "fst (clock_out clk tz e s)" "s\<lparr>ticks := Suc (ticks s)\<rparr>"]
      by (simp add: clock_out_snd [symmetric])
  qed
  from a b c show ?thesis by auto
qed

theorem clock_out_is_late_witness:
  "(time_in entry_0830 + utc_zone (time_in entry_0830)) mod (86400 * 1000000)
      = (8 * 3600 + 30 * 60) * 1000000
   \<and> \<not> is_late (fst (clock_out clock_1700 utc_zone entry_0830 ledger_0830))
   \<and> entries (snd (clock_out clock_1700 utc_zone entry_0830 ledger_0830))
       = [fst (clock_out clock_1700 utc_zone entry_0830 ledger_0830)]"
proof -
  have h: "(time_in entry_0830 + utc_zone (time_in entry_0830)) mod (86400 * 1000000)
      = (8 * 3600 + 30 * 60) * 1000000"
    by (simp add: entry_0830_def utc_zone_def)
  have "entries (snd (clock_out clock_1700 utc_zone entry_0830 ledger_0830))
       = [fst (clock_out clock_1700 utc_zone entry_0830 ledger_0830)]"
    by (simp add: clock_out_snd save_def ledger_0830_def clock_out_fst entry_0830_def)
  with h clock_out_is_late [of clock_1700 utc_zone entry_0830 ledger_0830]
  show ?thesis by blast
qed

text \<open>
  Claim C5. \<^verbatim>\<open>clock_out\<close> sets \<open>time_out\<close> to the current time and \<open>hours_worked\<close> to
  \<^verbatim>\<open>round(delta.total_seconds() / 3600, 2)\<close> for the difference \<open>delta\<close> of \<open>time_out\<close>
  and \<open>time_in\<close>, and saves the entry. The hours are rounded to two decimals: they are the
  double nearest to a number \<open>k / 100\<close>, for an integer \<open>k\<close>, that lies within half a
  hundredth of the exact number of hours (up to the error of the float divisions, below
  \<open>2\<^sup>-\<^sup>5\<^sup>0\<close> relative). \<^verbatim>\<open>clock_in\<close> closes the open entries of the user in the same
  way: with unique primary keys, the \<open>i\<close>-th of them is in the table afterwards as
  \<^verbatim>\<open>clock_out\<close> leaves it at the \<open>i\<close>-th reading of the clock, with \<open>time_out\<close> that
  reading and the hours rounded in the same way.
\<close>

theorem clock_out_sets_time_out_and_hours:
  "time_out (fst (clock_out clk tz e s)) = Some (clk (ticks s))
   \<and> hours_worked (fst (clock_out clk tz e s))
       = Some (py_round2 (float_div (total_seconds (clk (ticks s) - time_in e)) 3600))
   \<and> (\<exists>k::int.
         hours_worked (fst (clock_out clk tz e s)) = Some (binary64 (of_int k / 100))
       \<and> \<bar>binary64 (of_int k / 100) - of_int k / 100\<bar> \<le> \<bar>of_int k / 100\<bar> / 2 ^ 53 + 1 / 2 ^ 60
       \<and> \<bar>(of_int k :: rat) / 100 - of_int (clk (ticks s) - time_in e) / 3600000000\<bar>
           \<le> 1 / 200 + (\<bar>of_int (clk (ticks s) - time_in e) / 3600000000\<bar> + 1) / 2 ^ 50)
   \<and> fst (clock_out clk tz e s) \<in> set (entries (snd (clock_out clk tz e s)))
   \<and> (distinct (map pk (entries s)) \<longrightarrow>
        (\<forall>i < length (open_entries_of user (entries s)).
           fst (clock_out clk tz (open_entries_of user (entries s) ! i) (s\<lparr>ticks := ticks s + i\<rparr>))
             \<in> set (entries (snd (clock_in clk tz user s)))
         \<and> (\<exists>r \<in> set (entries (snd (clock_in clk tz user s))). \<exists>k::int.
               pk r = pk (open_entries_of user (entries s) ! i)
             \<and> time_in r = time_in (open_entries_of user (entries s) ! i)
             \<and> time_out r = Some (clk (ticks s + i))
             \<and> hours_worked r = Some (binary64 (of_int k / 100))
             \<and> \<bar>(of_int k :: rat) / 100
                   - of_int (clk (ticks s + i) - time_in (open_entries_of user (entries s) ! i))
                       / 3600000000\<bar>
                 \<le> 1 / 200
                   + (\<bar>of_int (clk (ticks s + i) - time_in (open_entries_of user (entries s) ! i))
                         / 3600000000\<bar> + 1) / 2 ^ 50)))"
proof -
  let ?opens = "open_entries_of user (entries s)"
  have two: "\<exists>k::int.
         hours_worked (fst (clock_out clk tz e' s')) = Some (binary64 (of_int k / 100))
       \<and> \<bar>binary64 (of_int k / 100) - of_int k / 100\<bar> \<le> \<bar>of_int k / 100\<bar> / 2 ^ 53 + 1 / 2 ^ 60
       \<and> \<bar>(of_int k :: rat) / 100 - of_int (clk (ticks s') - time_in e') / 3600000000\<bar>
           \<le> 1 / 200 + (\<bar>of_int (clk (ticks s') - time_in e') / 3600000000\<bar> + 1) / 2 ^ 50"
    for e' s'
  proof -
    from hours_two_decimals [of "clk (ticks s') - time_in e'"]
    obtain k :: int where
      k: "py_round2 (float_div (total_seconds (clk (ticks s') - time_in e')) 3600)
            = binary64 (of_int k / 100)"
        "\<bar>(of_int k :: rat) / 100 - of_int (clk (ticks s') - time_in e') / 3600000000\<bar>
           \<le> 1 / 200 + (\<bar>of_int (clk (ticks s') - time_in e') / 3600000000\<bar> + 1) / 2 ^ 50"
      by blast
    from k(1) have "hours_worked (fst (clock_out clk tz e' s')) = Some (binary64 (of_int k / 100))"
      by (simp add: clock_out_fst)
    with k(2) binary64_rel_error [of "of_int k / 100"] show ?thesis by blast
  qed
  have i: "fst (clock_out clk tz e s) \<in> set (entries (snd (clock_out clk tz e s)))"
    by (simp only: clock_out_snd saved_in_table)
  have l: "fst (clock_out clk tz (?opens ! i) (s\<lparr>ticks := ticks s + i\<rparr>))
             \<in> set (entries (snd (clock_in clk tz user s)))
         \<and> (\<exists>r \<in> set (entries (snd (clock_in clk tz user s))). \<exists>k::int.
               pk r = pk (?opens ! i)
             \<and> time_in r = time_in (?opens ! i)
             \<and> time_out r = Some (clk (ticks s + i))
             \<and> hours_worked r = Some (binary64 (of_int k / 100))
             \<and> \<bar>(of_int k :: rat) / 100 - of_int (clk (ticks s + i) - time_in (?opens ! i)) / 3600000000\<bar>
                 \<le> 1 / 200
                   + (\<bar>of_int (clk (ticks s + i) - time_in (?opens ! i)) / 3600000000\<bar> + 1) / 2 ^ 50)"
    if d: "distinct (map pk (entries s))" and b: "i < length ?opens" for i
  proof -
    let ?r = "fst (clock_out clk tz (?opens ! i) (s\<lparr>ticks := ticks s + i\<rparr>))"
    from d have "distinct (map pk ?opens)" by (rule open_entries_distinct)
    from clock_out_each_nth [OF this open_entries_subset b]
    have m: "?r \<in> set (entries (snd (clock_in clk tz user s)))"
      by (simp add: clock_in_snd Let_def)
    from two [of "?opens ! i" "s\<lparr>ticks := ticks s + i\<rparr>"]
    obtain k :: int where
      "hours_worked ?r = Some (binary64 (of_int k / 100))"
      "\<bar>(of_int k :: rat) / 100 - of_int (clk (ticks s + i) - time_in (?opens ! i)) / 3600000000\<bar>
         \<le> 1 / 200
           + (\<bar>of_int (clk (ticks s + i) - time_in (?opens ! i)) / 3600000000\<bar> + 1) / 2 ^ 50"
      by auto
    moreover have "pk ?r = pk (?opens ! i)" "time_in ?r = time_in (?opens ! i)"
      "time_out ?r = Some (clk (ticks s + i))"
      by (simp_all add: clock_out_fst)
    ultimately show ?thesis using m by blast
  qed
  from i l two [of e s] show ?thesis by (simp add: clock_out_fst)
qed

theorem clock_out_sets_time_out_and_hours_witness:
  "distinct (map pk (entries ledger_0830))
   \<and> open_entries_of alice (entries ledger_0830) = [entry_0830]
   \<and> fst (clock_out clock_1707 utc_zone entry_0830 ledger_0830)
       = \<lparr>pk = 1, user_id = 1, time_in = (8 * 3600 + 30 * 60) * 1000000,
          time_out = Some ((17 * 3600 + 7 * 60) * 1000000),
          hours_worked = Some (binary64 (862 / 100)), is_late = False\<rparr>
   \<and> \<lparr>pk = 1, user_id = 1, time_in = (8 * 3600 + 30 * 60) * 1000000,
       time_out = Some ((17 * 3600 + 7 * 60) * 1000000),
       hours_worked = Some (binary64 (862 / 100)), is_late = False\<rparr>
       \<in> set (entries (snd (clock_in clock_1707 utc_zone alice ledger_0830)))
   \<and> binary64 (862 / 100) = 4852628598491709 / 2 ^ 49
   \<and> (of_int ((17 * 3600 + 7 * 60) * 1000000 - (8 * 3600 + 30 * 60) * 1000000) :: rat) / 3600000000
       = 517 / 60
   \<and> float_div (total_seconds ((17 * 3600 + 7 * 60) * 1000000 - (8 * 3600 + 30 * 60) * 1000000)) 3600
       = 1212688024661743 / 2 ^ 47"
proof -
  have a: "distinct (map pk (entries ledger_0830))"
    by (simp add: ledger_0830_def)
  have b: "open_entries_of alice (entries ledger_0830) = [entry_0830]"
    by (simp add: ledger_0830_def open_entries_of_def entry_0830_def alice_def)
  have "fst (clock_out clock_1707 utc_zone entry_0830 ledger_0830)
       = entry_0830\<lparr>time_out := Some ((17 * 3600 + 7 * 60) * 1000000),
           hours_worked := Some (py_round2 (float_div (total_seconds
              ((17 * 3600 + 7 * 60) * 1000000 - (8 * 3600 + 30 * 60) * 1000000)) 3600)),
           is_late := False\<rparr>"
    by (simp add: clock_out_fst clock_1707_def entry_0830_def local_time_of_day nine_oclock
        utc_zone_def)
  then have c: "fst (clock_out clock_1707 utc_zone entry_0830 ledger_0830)
       = \<lparr>pk = 1, user_id = 1, time_in = (8 * 3600 + 30 * 60) * 1000000,
          time_out = Some ((17 * 3600 + 7 * 60) * 1000000),
          hours_worked = Some (binary64 (862 / 100)), is_late = False\<rparr>"
    by (simp only: hours_0830_to_1707 float_862) (simp add: entry_0830_def)
  have t: "ledger_0830\<lparr>ticks := ticks ledger_0830 + 0\<rparr> = ledger_0830" by simp
  have e: "(of_int ((17 * 3600 + 7 * 60) * 1000000 - (8 * 3600 + 30 * 60) * 1000000) :: rat)
       / 3600000000 = 517 / 60"
    by simp
  from a clock_out_sets_time_out_and_hours
    [where s = ledger_0830 and user = alice and clk = clock_1707 and tz = utc_zone]
  have "\<forall>i < length (open_entries_of alice (entries ledger_0830)).
           fst (clock_out clock_1707 utc_zone (open_entries_of alice (entries ledger_0830) ! i)
                  (ledger_0830\<lparr>ticks := ticks ledger_0830 + i\<rparr>))
             \<in> set (entries (snd (clock_in clock_1707 utc_zone alice ledger_0830)))"
    by blast
  then have "fst (clock_out clock_1707 utc_zone ([entry_0830] ! 0)
                  (ledger_0830\<lparr>ticks := ticks ledger_0830 + 0\<rparr>))
             \<in> set (entries (snd (clock_in clock_1707 utc_zone alice ledger_0830)))"
    unfolding b by simp
  then have "fst (clock_out clock_1707 utc_zone entry_0830 ledger_0830)
             \<in> set (entries (snd (clock_in clock_1707 utc_zone alice ledger_0830)))"
    unfolding t by simp
  with a b c e float_862 unrounded_0830_to_1707 show ?thesis by simp
qed

text \<open>
  Claim C10. An entry that \<^verbatim>\<open>clock_out\<close> has closed has \<open>time_out\<close> and \<open>hours_worked\<close>
  set, and its hours are not negative when \<open>time_out\<close> is not before \<open>time_in\<close>. If
  every row of the table is fully populated, so is every row after \<^verbatim>\<open>clock_out\<close>,
  \<^verbatim>\<open>clock_in\<close> and either view. The row that \<^verbatim>\<open>clock_in\<close> creates, which is the entry
  it returns, has neither \<open>time_out\<close> nor \<open>hours_worked\<close>.
\<close>

theorem closed_entries_fully_populated:
  "fully_populated (fst (clock_out clk tz e s))
   \<and> time_out (fst (clock_out clk tz e s)) \<noteq> None
   \<and> hours_worked (fst (clock_out clk tz e s)) \<noteq> None
   \<and> (list_all fully_populated (entries s) \<longrightarrow>
        list_all fully_populated (entries (snd (clock_out clk tz e s)))
      \<and> list_all fully_populated (entries (snd (clock_in clk tz user s)))
      \<and> list_all fully_populated (entries (snd (clock_out_view clk tz s eid secret)))
      \<and> list_all fully_populated (entries (snd (clock_in_view clk tz s eid secret))))
   \<and> time_out (last (entries (snd (clock_in clk tz user s)))) = None
   \<and> hours_worked (last (entries (snd (clock_in clk tz user s)))) = None
   \<and> (\<forall>n. fst (clock_in clk tz user s) = Inr n \<longrightarrow>
        n = last (entries (snd (clock_in clk tz user s))))"
proof -
  have a: "list_all fully_populated (entries (snd (clock_out_view clk tz s eid secret)))"
    if "list_all fully_populated (entries s)"
    using that clock_out_view_state [of clk tz s eid secret]
    by (auto simp: clock_out_preserves_populated)
  have b: "list_all fully_populated (entries (snd (clock_in_view clk tz s eid secret)))"
    if "list_all fully_populated (entries s)"
    using that clock_in_view_state [of clk tz s eid secret]
    by (auto simp: clock_in_preserves_populated)
  have c: "n = last (entries (snd (clock_in clk tz user s)))"
    if "fst (clock_in clk tz user s) = Inr n" for n
    using that by (simp add: clock_in_fst clock_in_snd Let_def split: if_splits)
  have d: "time_out (last (entries (snd (clock_in clk tz user s)))) = None
     \<and> hours_worked (last (entries (snd (clock_in clk tz user s)))) = None"
    by (simp add: clock_in_snd Let_def)
  have e: "time_out (fst (clock_out clk tz e s)) \<noteq> None
     \<and> hours_worked (fst (clock_out clk tz e s)) \<noteq> None"
    by (simp add: clock_out_fst)
  from a b c d e show ?thesis
    by (simp add: clock_out_populated clock_out_preserves_populated clock_in_preserves_populated)
qed

theorem closed_entries_fully_populated_witness:
  "list_all fully_populated (entries ledger_closed)
   \<and> entries ledger_closed \<noteq> []
   \<and> list_all fully_populated (entries (snd (clock_out clock_1700 utc_zone entry_closed ledger_closed)))
   \<and> list_all fully_populated (entries (snd (clock_in clock_1700 utc_zone alice ledger_closed)))
   \<and> list_all fully_populated
        (entries (snd (clock_out_view clock_1700 utc_zone ledger_closed (Some ''E00001'') (Some ''1234''))))
   \<and> list_all fully_populated
        (entries (snd (clock_in_view clock_1700 utc_zone ledger_closed (Some ''E00001'') (Some ''1234''))))
   \<and> length (entries (snd (clock_in_view clock_1700 utc_zone ledger_closed (Some ''E00001'')
        (Some ''1234'')))) = 2
   \<and> fully_populated (fst (clock_out clock_1700 utc_zone entry_0830 ledger_0830))
   \<and> time_in entry_0830 \<le> 17 * 3600 * 1000000
   \<and> time_out (fst (clock_out clock_1700 utc_zone entry_0830 ledger_0830)) = Some (17 * 3600 * 1000000)
   \<and> hours_worked (fst (clock_out clock_1700 utc_zone entry_0830 ledger_0830)) = Some (17 / 2)"
proof -
  have a: "list_all fully_populated (entries ledger_closed) \<and> entries ledger_closed \<noteq> []"
    by (simp add: ledger_closed_def entry_closed_def fully_populated_def)
  have g: "objects_get (users ledger_closed) (Some ''E00001'') = Inr alice"
    by (simp add: objects_get_def ledger_closed_def alice_def boss_def)
  have "snd (clock_in_view clock_1700 utc_zone ledger_closed (Some ''E00001'') (Some ''1234''))
      = snd (clock_in clock_1700 utc_zone alice ledger_closed)"
    by (simp add: clock_in_view_found [OF g] split: prod.splits sum.splits) (simp add: alice_def)
  then have l: "length (entries (snd (clock_in_view clock_1700 utc_zone ledger_closed (Some ''E00001'')
        (Some ''1234'')))) = 2"
    by (simp add: clock_in_snd Let_def ledger_closed_def open_entries_of_def entry_closed_def
        alice_def)
  have c: "time_in entry_0830 \<le> 17 * 3600 * 1000000
     \<and> time_out (fst (clock_out clock_1700 utc_zone entry_0830 ledger_0830)) = Some (17 * 3600 * 1000000)"
    by (simp add: entry_0830_def clock_out_fst clock_1700_def)
  have "hours_worked (fst (clock_out clock_1700 utc_zone entry_0830 ledger_0830))
      = Some (py_round2 (float_div (total_seconds
              (17 * 3600 * 1000000 - (8 * 3600 + 30 * 60) * 1000000)) 3600))"
    by (simp add: clock_out_fst clock_1700_def entry_0830_def)
  then have h: "hours_worked (fst (clock_out clock_1700 utc_zone entry_0830 ledger_0830)) = Some (17 / 2)"
    by (simp only: hours_0830_to_1700)
  from a closed_entries_fully_populated
    [where clk = clock_1700 and tz = utc_zone and e = entry_closed and s = ledger_closed
       and user = alice and eid = "Some ''E00001''" and secret = "Some ''1234''"]
  have p: "list_all fully_populated (entries (snd (clock_out clock_1700 utc_zone entry_closed ledger_closed)))
   \<and> list_all fully_populated (entries (snd (clock_in clock_1700 utc_zone alice ledger_closed)))
   \<and> list_all fully_populated
        (entries (snd (clock_out_view clock_1700 utc_zone ledger_closed (Some ''E00001'') (Some ''1234''))))
   \<and> list_all fully_populated
        (entries (snd (clock_in_view clock_1700 utc_zone ledger_closed (Some ''E00001'') (Some ''1234''))))"
    by blast
  from closed_entries_fully_populated
    [where clk = clock_1700 and tz = utc_zone and e = entry_0830 and s = ledger_0830]
  have q: "fully_populated (fst (clock_out clock_1700 utc_zone entry_0830 ledger_0830))"
    by blast
  from a l c h p q show ?thesis by blast
qed

section \<open>Clocking out with no open entry\<close>

text \<open>
  Claim C6. For a user of the directory whose PIN was submitted and who has no open
  entry, the clock-out view answers with the failure \<^verbatim>\<open>No active clock in found.\<close>, as
  a normal response, and leaves the state unchanged.
\<close>

theorem clock_out_view_no_active_session:
  "distinct (map employee_id (users s)) \<Longrightarrow> u \<in> set (users s) \<Longrightarrow> pin u = secret \<Longrightarrow>
   \<forall>e \<in> set (entries s). user_id e = uid u \<longrightarrow> time_out e \<noteq> None \<Longrightarrow>
   clock_out_view clk tz s (Some (employee_id u)) secret =
     (Inr (Failure ''No active clock in found.''), s)"
proof -
  assume d: "distinct (map employee_id (users s))" and m: "u \<in> set (users s)"
    and p: "pin u = secret"
    and n: "\<forall>e \<in> set (entries s). user_id e = uid u \<longrightarrow> time_out e \<noteq> None"
  from d m have g: "objects_get (users s) (Some (employee_id u)) = Inr u"
    by (simp add: objects_get_found)
  from n have "open_entries_of u (entries s) = []"
    by (simp only: open_entries_of_empty)
  with p show ?thesis by (simp add: clock_out_view_found [OF g])
qed

theorem clock_out_view_no_active_session_witness:
  "distinct (map employee_id (users ledger_closed)) \<and> alice \<in> set (users ledger_closed)
   \<and> pin alice = Some ''1234''
   \<and> list_all (\<lambda>e. user_id e \<noteq> uid alice \<or> time_out e \<noteq> None) (entries ledger_closed)
   \<and> entries ledger_closed \<noteq> []
   \<and> clock_out_view clock_1700 utc_zone ledger_closed (Some ''E00001'') (Some ''1234'') =
       (Inr (Failure ''No active clock in found.''), ledger_closed)"
proof -
  have a: "distinct (map employee_id (users ledger_closed))" "alice \<in> set (users ledger_closed)"
    "pin alice = Some ''1234''"
    by (simp_all add: ledger_closed_def alice_def boss_def)
  have b: "\<forall>e \<in> set (entries ledger_closed). user_id e = uid alice \<longrightarrow> time_out e \<noteq> None"
    by (simp add: ledger_closed_def entry_closed_def)
  have c: "list_all (\<lambda>e. user_id e \<noteq> uid alice \<or> time_out e \<noteq> None) (entries ledger_closed)
     \<and> entries ledger_closed \<noteq> []"
    by (simp add: ledger_closed_def entry_closed_def)
  have e: "employee_id alice = ''E00001''" by (simp add: alice_def)
  from a c clock_out_view_no_active_session [OF a(1) a(2) a(3) b, of clock_1700 utc_zone]
  show ?thesis unfolding e by simp
qed

section \<open>Credentials\<close>

text \<open>
  Claim C7, amended. \<^verbatim>\<open>authenticate_by_pin\<close> looks the user up by the identifier and
  returns \<^verbatim>\<open>None\<close> when there is none. For a staff user or superuser it checks the
  secret against the encoded password, for any other user it compares the secret with
  the stored PIN; it returns the user on a match and \<^verbatim>\<open>None\<close> on a mismatch, the same
  result as for an unknown identifier.
\<close>

theorem authenticate_by_pin_result:
  "(eid \<notin> Some ` employee_id ` set (users s) \<longrightarrow>
      authenticate_by_pin verify s eid secret = Inr None)
   \<and> (distinct (map employee_id (users s)) \<and> u \<in> set (users s) \<longrightarrow>
      authenticate_by_pin verify s (Some (employee_id u)) secret =
        Inr (if is_staff u \<or> is_superuser u
             then (if secret \<noteq> None \<and> verify (the secret) (password u) then Some u else None)
             else (if pin u = secret then Some u else None)))"
proof (intro conjI impI)
  assume "eid \<notin> Some ` employee_id ` set (users s)"
  then show "authenticate_by_pin verify s eid secret = Inr None"
    by (simp add: authenticate_by_pin_def objects_get_absent)
next
  assume "distinct (map employee_id (users s)) \<and> u \<in> set (users s)"
  then have "objects_get (users s) (Some (employee_id u)) = Inr u"
    by (simp add: objects_get_found)
  then show "authenticate_by_pin verify s (Some (employee_id u)) secret =
        Inr (if is_staff u \<or> is_superuser u
             then (if secret \<noteq> None \<and> verify (the secret) (password u) then Some u else None)
             else (if pin u = secret then Some u else None))"
    by (cases secret) (simp_all add: authenticate_by_pin_def check_password_def)
qed

theorem authenticate_by_pin_result_witness:
  "Some ''E00009'' \<notin> Some ` employee_id ` set (users empty_ledger)
   \<and> authenticate_by_pin demo_verify empty_ledger (Some ''E00009'') (Some ''1234'') = Inr None
   \<and> distinct (map employee_id (users empty_ledger)) \<and> boss \<in> set (users empty_ledger)
   \<and> authenticate_by_pin demo_verify empty_ledger (Some ''E00002'') (Some ''hunter2'') = Inr (Some boss)
   \<and> authenticate_by_pin demo_verify empty_ledger (Some ''E00002'') (Some ''0000'') = Inr None"
proof -
  have a: "Some ''E00009'' \<notin> Some ` employee_id ` set (users empty_ledger)"
    by (simp add: empty_ledger_def alice_def boss_def)
  have b: "distinct (map employee_id (users empty_ledger)) \<and> boss \<in> set (users empty_ledger)"
    by (simp add: empty_ledger_def alice_def boss_def)
  have e: "employee_id boss = ''E00002''" by (simp add: boss_def)
  from a authenticate_by_pin_result
    [where eid = "Some ''E00009''" and s = empty_ledger and verify = demo_verify and secret = "Some ''1234''"]
  have c: "authenticate_by_pin demo_verify empty_ledger (Some ''E00009'') (Some ''1234'') = Inr None"
    by blast
  from b authenticate_by_pin_result
    [where s = empty_ledger and u = boss and verify = demo_verify and secret = "Some ''hunter2''"]
  have d: "authenticate_by_pin demo_verify empty_ledger (Some ''E00002'') (Some ''hunter2'') = Inr (Some boss)"
    by (simp add: e) (simp add: boss_def demo_verify_def)
  from b authenticate_by_pin_result
    [where s = empty_ledger and u = boss and verify = demo_verify and secret = "Some ''0000''"]
  have f: "authenticate_by_pin demo_verify empty_ledger (Some ''E00002'') (Some ''0000'') = Inr None"
    by (simp add: e) (simp add: boss_def demo_verify_def)
  from a b c d f show ?thesis by blast
qed

text \<open>
  Claim C7 as stated has a mismatch answered by a result distinct from the one for an
  unknown identifier. Both are \<^verbatim>\<open>None\<close>.
\<close>

theorem authenticate_by_pin_same_failure:
  "authenticate_by_pin demo_verify empty_ledger (Some ''E00009'') (Some ''1234'') = Inr None
   \<and> authenticate_by_pin demo_verify empty_ledger (Some ''E00001'') (Some ''9999'') = Inr None"
  by (simp add: authenticate_by_pin_def objects_get_def empty_ledger_def alice_def boss_def)

text \<open>
  Claim C9. For a user of the directory, each of the three views answers
  \<^verbatim>\<open>Incorrect PIN\<close> exactly when the submitted secret differs from the stored \<open>pin\<close>
  field, whatever \<open>is_staff\<close> and \<open>is_superuser\<close> are; no view takes the password
  hasher. So a staff user or superuser who submits the right password is rejected
  unless the password equals the \<open>pin\<close> field.
\<close>

theorem views_compare_pin_literally:
  "distinct (map employee_id (users s)) \<and> u \<in> set (users s) \<longrightarrow>
     (fst (clock_in_view clk tz s (Some (employee_id u)) secret) = Inr (Failure ''Incorrect PIN''))
        = (pin u \<noteq> secret)
   \<and> (fst (clock_out_view clk tz s (Some (employee_id u)) secret) = Inr (Failure ''Incorrect PIN''))
        = (pin u \<noteq> secret)
   \<and> (login_view s ''POST'' (Some (employee_id u)) secret = Inr (Render (Some ''Incorrect PIN'')))
        = (pin u \<noteq> secret)
   \<and> ((is_staff u \<or> is_superuser u) \<and> check_password verify u secret \<and> pin u \<noteq> secret \<longrightarrow>
        clock_in_view clk tz s (Some (employee_id u)) secret = (Inr (Failure ''Incorrect PIN''), s)
      \<and> clock_out_view clk tz s (Some (employee_id u)) secret = (Inr (Failure ''Incorrect PIN''), s)
      \<and> login_view s ''POST'' (Some (employee_id u)) secret = Inr (Render (Some ''Incorrect PIN'')))"
proof
  assume "distinct (map employee_id (users s)) \<and> u \<in> set (users s)"
  then have g: "objects_get (users s) (Some (employee_id u)) = Inr u"
    by (simp add: objects_get_found)
  show "(fst (clock_in_view clk tz s (Some (employee_id u)) secret) = Inr (Failure ''Incorrect PIN''))
        = (pin u \<noteq> secret)
   \<and> (fst (clock_out_view clk tz s (Some (employee_id u)) secret) = Inr (Failure ''Incorrect PIN''))
        = (pin u \<noteq> secret)
   \<and> (login_view s ''POST'' (Some (employee_id u)) secret = Inr (Render (Some ''Incorrect PIN'')))
        = (pin u \<noteq> secret)
   \<and> ((is_staff u \<or> is_superuser u) \<and> check_password verify u secret \<and> pin u \<noteq> secret \<longrightarrow>
        clock_in_view clk tz s (Some (employee_id u)) secret = (Inr (Failure ''Incorrect PIN''), s)
      \<and> clock_out_view clk tz s (Some (employee_id u)) secret = (Inr (Failure ''Incorrect PIN''), s)
      \<and> login_view s ''POST'' (Some (employee_id u)) secret = Inr (Render (Some ''Incorrect PIN'')))"
    using clock_in_view_incorrect_pin_iff [OF g] clock_out_view_incorrect_pin_iff [OF g]
      login_view_incorrect_pin_iff [OF g]
    by (simp add: clock_in_view_found [OF g] clock_out_view_found [OF g] login_view_found [OF g])
qed

theorem views_compare_pin_literally_witness:
  "distinct (map employee_id (users empty_ledger)) \<and> boss \<in> set (users empty_ledger)
   \<and> (is_staff boss \<or> is_superuser boss)
   \<and> check_password demo_verify boss (Some ''hunter2'') \<and> pin boss \<noteq> Some ''hunter2''
   \<and> clock_in_view clock_1700 utc_zone empty_ledger (Some ''E00002'') (Some ''hunter2'')
        = (Inr (Failure ''Incorrect PIN''), empty_ledger)
   \<and> clock_out_view clock_1700 utc_zone empty_ledger (Some ''E00002'') (Some ''hunter2'')
        = (Inr (Failure ''Incorrect PIN''), empty_ledger)
   \<and> login_view empty_ledger ''POST'' (Some ''E00002'') (Some ''hunter2'')
        = Inr (Render (Some ''Incorrect PIN''))"
proof -
  have a: "distinct (map employee_id (users empty_ledger)) \<and> boss \<in> set (users empty_ledger)"
    by (simp add: empty_ledger_def alice_def boss_def)
  have b: "(is_staff boss \<or> is_superuser boss)
     \<and> check_password demo_verify boss (Some ''hunter2'') \<and> pin boss \<noteq> Some ''hunter2''"
    by (simp add: boss_def check_password_def demo_verify_def)
  have e: "employee_id boss = ''E00002''" by (simp add: boss_def)
  from a b views_compare_pin_literally
    [where s = empty_ledger and u = boss and verify = demo_verify and secret = "Some ''hunter2''"
       and clk = clock_1700 and tz = utc_zone]
  show ?thesis unfolding e by blast
qed

end
